theory Spec2Isabelle
  imports Complex_Main
begin

section \<open>The numeric model\<close>

text \<open>
  The program computes on C++ \<open>double\<close>. A \<open>double\<close> is modelled as a value of \<open>dbl\<close>:
  a finite number, one of the two infinities, or NaN. The special values follow IEEE 754
  and Annex F of the C standard (what \<open>x/0\<close>, \<open>inf - inf\<close>, \<open>log 0\<close>, \<open>exp (-inf)\<close> and a
  comparison with NaN give). On finite values the arithmetic is exact: a finite result is
  the real number itself, with no rounding to 53 bits, no overflow to infinity and no
  underflow to zero, and \<open>exp\<close> and \<open>log\<close> are the real functions. The two zeros of IEEE
  754 are one value \<open>Fin 0\<close>, read as \<open>+0.0\<close>: every divisor of this program is either an
  accumulator started at \<open>0.0\<close> (which round-to-nearest addition never turns into
  \<open>-0.0\<close>) or tested against zero before the division.

  Exact arithmetic makes sums cancel that in doubles do not: \<open>(x + s) + (y - s)\<close> is
  \<open>x + y\<close> here for every finite \<open>s\<close>, while in doubles \<open>0.5 + 2^53\<close> is \<open>2^53\<close>. No
  theorem on a shifted input is therefore taken from this cancellation; what is proved
  about \<open>f + offset\<close> is stated on the sum the program computes.
\<close>

datatype dbl = Fin real | PInf | NInf | NaN

fun is_nan :: "dbl \<Rightarrow> bool" where
  "is_nan NaN = True"
| "is_nan _ = False"

fun is_finite :: "dbl \<Rightarrow> bool" where
  "is_finite (Fin _) = True"
| "is_finite _ = False"

fun the_real :: "dbl \<Rightarrow> real" where
  "the_real (Fin a) = a"
| "the_real _ = 0"

fun dneg :: "dbl \<Rightarrow> dbl" where
  "dneg (Fin a) = Fin (- a)"
| "dneg PInf = NInf"
| "dneg NInf = PInf"
| "dneg NaN = NaN"

fun dadd :: "dbl \<Rightarrow> dbl \<Rightarrow> dbl" where
  "dadd (Fin a) (Fin b) = Fin (a + b)"
| "dadd NaN _ = NaN"
| "dadd _ NaN = NaN"
| "dadd PInf NInf = NaN"
| "dadd NInf PInf = NaN"
| "dadd PInf _ = PInf"
| "dadd _ PInf = PInf"
| "dadd NInf _ = NInf"
| "dadd _ NInf = NInf"

definition dsub :: "dbl \<Rightarrow> dbl \<Rightarrow> dbl" where
  "dsub x y = dadd x (dneg y)"

fun dmul :: "dbl \<Rightarrow> dbl \<Rightarrow> dbl" where
  "dmul (Fin a) (Fin b) = Fin (a * b)"
| "dmul NaN _ = NaN"
| "dmul _ NaN = NaN"
| "dmul PInf (Fin b) = (if b = 0 then NaN else if 0 < b then PInf else NInf)"
| "dmul NInf (Fin b) = (if b = 0 then NaN else if 0 < b then NInf else PInf)"
| "dmul (Fin a) PInf = (if a = 0 then NaN else if 0 < a then PInf else NInf)"
| "dmul (Fin a) NInf = (if a = 0 then NaN else if 0 < a then NInf else PInf)"
| "dmul PInf PInf = PInf"
| "dmul PInf NInf = NInf"
| "dmul NInf PInf = NInf"
| "dmul NInf NInf = PInf"

fun ddiv :: "dbl \<Rightarrow> dbl \<Rightarrow> dbl" where
  "ddiv (Fin a) (Fin b) =
     (if b = 0 then (if a = 0 then NaN else if 0 < a then PInf else NInf)
      else Fin (a / b))"
| "ddiv NaN _ = NaN"
| "ddiv _ NaN = NaN"
| "ddiv (Fin a) PInf = Fin 0"
| "ddiv (Fin a) NInf = Fin 0"
| "ddiv PInf (Fin b) = (if 0 \<le> b then PInf else NInf)"
| "ddiv NInf (Fin b) = (if 0 \<le> b then NInf else PInf)"
| "ddiv PInf PInf = NaN"
| "ddiv PInf NInf = NaN"
| "ddiv NInf PInf = NaN"
| "ddiv NInf NInf = NaN"

text \<open>
  \<open>std::exp\<close> and \<open>std::log\<close> of the C++ library, as the real functions on finite arguments.
  On doubles \<open>std::exp\<close> overflows to \<open>+\<infinity>\<close> above about 709.78 and underflows to 0 below
  about -745.13; \<open>dexp\<close> does neither. A statement that would be false of the program for
  that reason carries a bound on the argument.
\<close>

fun dexp :: "dbl \<Rightarrow> dbl" where
  "dexp (Fin a) = Fin (exp a)"
| "dexp PInf = PInf"
| "dexp NInf = Fin 0"
| "dexp NaN = NaN"

fun dlog :: "dbl \<Rightarrow> dbl" where
  "dlog (Fin a) = (if 0 < a then Fin (ln a) else if a = 0 then NInf else NaN)"
| "dlog PInf = PInf"
| "dlog NInf = NaN"
| "dlog NaN = NaN"

text \<open>The comparisons \<open><\<close> and \<open><=\<close> of \<open>double\<close>: false as soon as one side is NaN.\<close>

fun dless :: "dbl \<Rightarrow> dbl \<Rightarrow> bool" where
  "dless (Fin a) (Fin b) = (a < b)"
| "dless NaN _ = False"
| "dless _ NaN = False"
| "dless _ NInf = False"
| "dless PInf _ = False"
| "dless NInf _ = True"
| "dless _ PInf = True"

fun dle :: "dbl \<Rightarrow> dbl \<Rightarrow> bool" where
  "dle (Fin a) (Fin b) = (a \<le> b)"
| "dle NaN _ = False"
| "dle _ NaN = False"
| "dle NInf _ = True"
| "dle _ PInf = True"
| "dle _ NInf = False"
| "dle PInf _ = False"

text \<open>
  \<open>R::fmax2\<close> and \<open>R::fmin2\<close> are functions of R's mathematics library, not of this
  repository. They are modelled after their definition there:
  \<^verbatim>\<open>if (ISNAN(x) || ISNAN(y)) return x + y;  return (x < y) ? y : x;\<close>
  and, for \<open>fmin2\<close>, \<^verbatim>\<open>return (x < y) ? x : y;\<close>
\<close>

definition fmax2 :: "dbl \<Rightarrow> dbl \<Rightarrow> dbl" where
  "fmax2 x y = (if is_nan x \<or> is_nan y then dadd x y else if dless x y then y else x)"

definition fmin2 :: "dbl \<Rightarrow> dbl \<Rightarrow> dbl" where
  "fmin2 x y = (if is_nan x \<or> is_nan y then dadd x y else if dless x y then x else y)"

text \<open>\<open>HUGE_VAL\<close> is positive infinity on an IEEE 754 platform.\<close>

definition HUGE_VAL :: dbl where
  "HUGE_VAL = PInf"

section \<open>Machine integers\<close>

text \<open>
  \<open>unsigned long\<close> is taken as 64 bits wide (LP64). A loop counter that runs from 0 to
  a bound of its own type never wraps and is a \<open>nat\<close>. In \<open>Deviance\<close> the \<open>int\<close> parameter
  \<open>cIdxOff\<close> is converted to \<open>unsigned long\<close> and added to \<open>cLength\<close>; both steps are
  modulo \<open>2^64\<close>.
\<close>

definition ulong_of_int :: "int \<Rightarrow> nat" where
  "ulong_of_int k = nat (k mod 2 ^ 64)"

definition ulong_add :: "nat \<Rightarrow> nat \<Rightarrow> nat" where
  "ulong_add a b = (a + b) mod 2 ^ 64"

section \<open>The operations of CPoisson\<close>

text \<open>
  An array parameter \<open>double *\<close> is a list, read with \<open>!\<close>; the optional offset array is a
  \<open>dbl list option\<close>, \<open>None\<close> for the null pointer. The source checks no bounds: reading or
  writing past the end of an array is undefined behaviour there, and the theorems below
  assume every array long enough wherever the length matters.
\<close>

definition ComputeWorkingResponse ::
  "dbl list \<Rightarrow> dbl list \<Rightarrow> dbl list option \<Rightarrow> dbl list \<Rightarrow> dbl list \<Rightarrow> dbl list \<Rightarrow> int list
   \<Rightarrow> nat \<Rightarrow> int \<Rightarrow> dbl list" where
  "ComputeWorkingResponse adY adMisc adOffset adF adZ adWeight afInBag nTrain cIdxOff =
     fold (\<lambda>i z.
             let dF = dadd (adF ! i) (case adOffset of None \<Rightarrow> Fin 0 | Some off \<Rightarrow> off ! i)
             in z[i := dsub (adY ! i) (dexp dF)])
          [0..<nTrain] adZ"

text \<open>\<open>InitF\<close> writes its result through the reference \<open>dInitF\<close>; the model returns it.\<close>

definition InitF ::
  "dbl list \<Rightarrow> dbl list \<Rightarrow> dbl list option \<Rightarrow> dbl list \<Rightarrow> nat \<Rightarrow> dbl" where
  "InitF adY adMisc adOffset adWeight cLength =
     (let (dSum, dDenom) =
        (case adOffset of
           None \<Rightarrow>
             fold (\<lambda>i (dSum, dDenom).
                     (dadd dSum (dmul (adWeight ! i) (adY ! i)),
                      dadd dDenom (adWeight ! i)))
                  [0..<cLength] (Fin 0, Fin 0)
         | Some off \<Rightarrow>
             fold (\<lambda>i (dSum, dDenom).
                     (dadd dSum (dmul (adWeight ! i) (adY ! i)),
                      dadd dDenom (dmul (adWeight ! i) (dexp (off ! i)))))
                  [0..<cLength] (Fin 0, Fin 0))
      in dlog (ddiv dSum dDenom))"

text \<open>
  The loop of \<open>Deviance\<close> is \<^verbatim>\<open>for(i=cIdxOff; i<cLength+cIdxOff; i++)\<close> with \<open>i\<close> and
  \<open>cLength\<close> of type \<open>unsigned long\<close> and \<open>cIdxOff\<close> of type \<open>int\<close>: it visits the indices
  from \<open>ulong_of_int cIdxOff\<close> up to, and without, \<open>ulong_add cLength (ulong_of_int cIdxOff)\<close>,
  none when the first is not below the second. The result is \<^verbatim>\<open>-2*dL/dW\<close>, that is
  \<open>(-2 * dL) / dW\<close>.
\<close>

definition Deviance ::
  "dbl list \<Rightarrow> dbl list \<Rightarrow> dbl list option \<Rightarrow> dbl list \<Rightarrow> dbl list \<Rightarrow> nat \<Rightarrow> int \<Rightarrow> dbl" where
  "Deviance adY adMisc adOffset adWeight adF cLength cIdxOff =
     (let (dL, dW) =
        (case adOffset of
           None \<Rightarrow>
             fold (\<lambda>i (dL, dW).
                     (dadd dL (dmul (adWeight ! i)
                                 (dsub (dmul (adY ! i) (adF ! i)) (dexp (adF ! i)))),
                      dadd dW (adWeight ! i)))
                  [ulong_of_int cIdxOff ..< ulong_add cLength (ulong_of_int cIdxOff)]
                  (Fin 0, Fin 0)
         | Some off \<Rightarrow>
             fold (\<lambda>i (dL, dW).
                     (dadd dL (dmul (adWeight ! i)
                                 (dsub (dmul (adY ! i) (dadd (off ! i) (adF ! i)))
                                       (dexp (dadd (off ! i) (adF ! i))))),
                      dadd dW (adWeight ! i)))
                  [ulong_of_int cIdxOff ..< ulong_add cLength (ulong_of_int cIdxOff)]
                  (Fin 0, Fin 0))
      in ddiv (dmul (Fin (- 2)) dL) dW)"

text \<open>
  \<open>FitBestConstant\<close> changes two things: the scratch vectors of the \<open>CPoisson\<close> object and
  the \<open>dPrediction\<close> field of the terminal nodes, which it reaches through pointers. The
  object is a record that is passed in and returned. The nodes live in a store from
  addresses to nodes; \<open>vecpTermNodes\<close> is a list of pointers, \<open>None\<close> for the null pointer,
  so that two entries may hold the same address. Of the class \<open>CNodeTerminal\<close>, declared
  outside this file, only the field written here is modelled.
\<close>

record CNodeTerminal =
  dPrediction :: dbl

type_synonym addr = nat

type_synonym store = "addr \<Rightarrow> CNodeTerminal"

record CPoisson =
  vecdNum :: "dbl list"
  vecdDen :: "dbl list"
  vecdMax :: "dbl list"
  vecdMin :: "dbl list"

definition set_dPrediction :: "store \<Rightarrow> addr \<Rightarrow> dbl \<Rightarrow> store" where
  "set_dPrediction h p v = h(p := (h p)\<lparr>dPrediction := v\<rparr>)"

text \<open>\<open>resize\<close> followed by \<open>assign\<close> of each scratch vector (lines 132 to 140).\<close>

definition FitBestConstant_reset :: "nat \<Rightarrow> CPoisson \<Rightarrow> CPoisson" where
  "FitBestConstant_reset cTermNodes this =
     this\<lparr>vecdNum := replicate cTermNodes (Fin 0),
          vecdDen := replicate cTermNodes (Fin 0),
          vecdMax := replicate cTermNodes (dneg HUGE_VAL),
          vecdMin := replicate cTermNodes HUGE_VAL\<rparr>"

text \<open>One iteration of the observation loop, with the offset absent (lines 146 to 154).\<close>

definition FitBestConstant_obs_null ::
  "dbl list \<Rightarrow> dbl list \<Rightarrow> dbl list \<Rightarrow> nat list \<Rightarrow> int list \<Rightarrow> nat \<Rightarrow> CPoisson \<Rightarrow> CPoisson" where
  "FitBestConstant_obs_null adY adW adF aiNodeAssign afInBag iObs this =
     (let k = aiNodeAssign ! iObs;
          this1 =
            (if afInBag ! iObs \<noteq> 0
             then this\<lparr>vecdNum := (vecdNum this)
                         [k := dadd (vecdNum this ! k) (dmul (adW ! iObs) (adY ! iObs))],
                       vecdDen := (vecdDen this)
                         [k := dadd (vecdDen this ! k) (dmul (adW ! iObs) (dexp (adF ! iObs)))]\<rparr>
             else this);
          this2 = this1\<lparr>vecdMax := (vecdMax this1)
                          [k := fmax2 (adF ! iObs) (vecdMax this1 ! k)]\<rparr>
      in this2\<lparr>vecdMin := (vecdMin this2)
                  [k := fmin2 (adF ! iObs) (vecdMin this2 ! k)]\<rparr>)"

text \<open>One iteration of the observation loop, with the offset present (lines 161 to 166).\<close>

definition FitBestConstant_obs_offset ::
  "dbl list \<Rightarrow> dbl list \<Rightarrow> dbl list \<Rightarrow> dbl list \<Rightarrow> nat list \<Rightarrow> int list \<Rightarrow> nat
   \<Rightarrow> CPoisson \<Rightarrow> CPoisson" where
  "FitBestConstant_obs_offset adY off adW adF aiNodeAssign afInBag iObs this =
     (let k = aiNodeAssign ! iObs
      in if afInBag ! iObs \<noteq> 0
         then this\<lparr>vecdNum := (vecdNum this)
                     [k := dadd (vecdNum this ! k) (dmul (adW ! iObs) (adY ! iObs))],
                   vecdDen := (vecdDen this)
                     [k := dadd (vecdDen this ! k)
                             (dmul (adW ! iObs) (dexp (dadd (off ! iObs) (adF ! iObs))))]\<rparr>
         else this)"

text \<open>
  One iteration of the node loop (lines 171 to 196): three writes to the node's
  \<open>dPrediction\<close>, the second and the third reading the field back.
\<close>

definition FitBestConstant_node :: "CPoisson \<Rightarrow> addr option list \<Rightarrow> nat \<Rightarrow> store \<Rightarrow> store" where
  "FitBestConstant_node this vecpTermNodes iNode h =
     (case vecpTermNodes ! iNode of
        None \<Rightarrow> h
      | Some p \<Rightarrow>
          let h1 = (if vecdNum this ! iNode = Fin 0
                    then set_dPrediction h p (Fin (- 19))
                    else if vecdDen this ! iNode = Fin 0
                    then set_dPrediction h p (Fin 0)
                    else set_dPrediction h p
                           (dlog (ddiv (vecdNum this ! iNode) (vecdDen this ! iNode))));
              h2 = set_dPrediction h1 p
                     (fmin2 (dPrediction (h1 p)) (dsub (Fin 19) (vecdMax this ! iNode)))
          in set_dPrediction h2 p
               (fmax2 (dPrediction (h2 p)) (dsub (Fin (- 19)) (vecdMin this ! iNode))))"

definition FitBestConstant ::
  "CPoisson \<Rightarrow> store \<Rightarrow> dbl list \<Rightarrow> dbl list \<Rightarrow> dbl list option \<Rightarrow> dbl list \<Rightarrow> dbl list
   \<Rightarrow> dbl list \<Rightarrow> nat list \<Rightarrow> nat \<Rightarrow> addr option list \<Rightarrow> nat \<Rightarrow> nat \<Rightarrow> int list \<Rightarrow> dbl list
   \<Rightarrow> int \<Rightarrow> CPoisson \<times> store" where
  "FitBestConstant this h adY adMisc adOffset adW adF adZ aiNodeAssign nTrain vecpTermNodes
       cTermNodes cMinObsInNode afInBag adFadj cIdxOff =
     (let this0 = FitBestConstant_reset cTermNodes this;
          this1 =
            (case adOffset of
               None \<Rightarrow>
                 fold (FitBestConstant_obs_null adY adW adF aiNodeAssign afInBag)
                      [0..<nTrain] this0
             | Some off \<Rightarrow>
                 fold (FitBestConstant_obs_offset adY off adW adF aiNodeAssign afInBag)
                      [0..<nTrain] this0)
      in (this1, fold (FitBestConstant_node this1 vecpTermNodes) [0..<cTermNodes] h))"

definition BagImprovement ::
  "dbl list \<Rightarrow> dbl list \<Rightarrow> dbl list option \<Rightarrow> dbl list \<Rightarrow> dbl list \<Rightarrow> dbl list \<Rightarrow> int list
   \<Rightarrow> dbl \<Rightarrow> nat \<Rightarrow> dbl" where
  "BagImprovement adY adMisc adOffset adWeight adF adFadj afInBag dStepSize nTrain =
     (let (dReturnValue, dW) =
        fold (\<lambda>i (dReturnValue, dW).
                if afInBag ! i = 0
                then let dF = dadd (adF ! i)
                                (case adOffset of None \<Rightarrow> Fin 0 | Some off \<Rightarrow> off ! i)
                     in (dadd dReturnValue
                           (dmul (adWeight ! i)
                              (dadd (dsub (dmul (dmul (adY ! i) dStepSize) (adFadj ! i))
                                          (dexp (dadd dF (dmul dStepSize (adFadj ! i)))))
                                    (dexp dF))),
                         dadd dW (adWeight ! i))
                else (dReturnValue, dW))
             [0..<nTrain] (Fin 0, Fin 0)
      in ddiv dReturnValue dW)"

section \<open>The quantities the specification names\<close>

text \<open>The sum of a list of doubles, written \<open>\<Sigma>\<close> in the specification.\<close>

primrec dsum :: "dbl list \<Rightarrow> dbl" where
  "dsum [] = Fin 0"
| "dsum (x # xs) = dadd x (dsum xs)"

text \<open>The linear predictor \<open>\<eta>[i] = f[i] + offset[i]\<close>, the offset counting as 0 when absent.\<close>

definition eta :: "dbl list option \<Rightarrow> dbl list \<Rightarrow> nat \<Rightarrow> dbl" where
  "eta adOffset adF i =
     dadd (adF ! i) (case adOffset of None \<Rightarrow> Fin 0 | Some off \<Rightarrow> off ! i)"

text \<open>The in-bag observations, and all observations, that are assigned to node \<open>k\<close>.\<close>

definition bag_obs :: "nat list \<Rightarrow> int list \<Rightarrow> nat \<Rightarrow> nat \<Rightarrow> nat list" where
  "bag_obs aiNodeAssign afInBag nTrain k =
     filter (\<lambda>i. afInBag ! i \<noteq> 0 \<and> aiNodeAssign ! i = k) [0..<nTrain]"

definition node_obs :: "nat list \<Rightarrow> nat \<Rightarrow> nat \<Rightarrow> nat list" where
  "node_obs aiNodeAssign nTrain k = filter (\<lambda>i. aiNodeAssign ! i = k) [0..<nTrain]"

text \<open>The accumulated numerator and denominator of node \<open>k\<close>.\<close>

definition numerator :: "dbl list \<Rightarrow> dbl list \<Rightarrow> nat list \<Rightarrow> int list \<Rightarrow> nat \<Rightarrow> nat \<Rightarrow> dbl" where
  "numerator adY adW aiNodeAssign afInBag nTrain k =
     dsum (map (\<lambda>i. dmul (adW ! i) (adY ! i)) (bag_obs aiNodeAssign afInBag nTrain k))"

definition denominator ::
  "dbl list option \<Rightarrow> dbl list \<Rightarrow> dbl list \<Rightarrow> nat list \<Rightarrow> int list \<Rightarrow> nat \<Rightarrow> nat \<Rightarrow> dbl" where
  "denominator adOffset adW adF aiNodeAssign afInBag nTrain k =
     dsum (map (\<lambda>i. dmul (adW ! i) (dexp (eta adOffset adF i)))
             (bag_obs aiNodeAssign afInBag nTrain k))"

text \<open>The prediction of a node before the clamp.\<close>

definition raw_prediction :: "dbl \<Rightarrow> dbl \<Rightarrow> dbl" where
  "raw_prediction num den =
     (if num = Fin 0 then Fin (- 19) else if den = Fin 0 then Fin 0 else dlog (ddiv num den))"

text \<open>The largest and the smallest \<open>f\<close> over the observations of node \<open>k\<close>, for finite \<open>f\<close>.\<close>

definition nodeMax :: "dbl list \<Rightarrow> nat list \<Rightarrow> nat \<Rightarrow> nat \<Rightarrow> real" where
  "nodeMax adF aiNodeAssign nTrain k =
     Max (set (map (\<lambda>i. the_real (adF ! i)) (node_obs aiNodeAssign nTrain k)))"

definition nodeMin :: "dbl list \<Rightarrow> nat list \<Rightarrow> nat \<Rightarrow> nat \<Rightarrow> real" where
  "nodeMin adF aiNodeAssign nTrain k =
     Min (set (map (\<lambda>i. the_real (adF ! i)) (node_obs aiNodeAssign nTrain k)))"

text \<open>
  The terminal nodes are separate objects: no two entries of \<open>vecpTermNodes\<close> below
  \<open>cTermNodes\<close> hold the same address.
\<close>

definition distinct_nodes :: "addr option list \<Rightarrow> nat \<Rightarrow> bool" where
  "distinct_nodes vecpTermNodes cTermNodes =
     (\<forall>i < cTermNodes. \<forall>j < cTermNodes.
        vecpTermNodes ! i \<noteq> None \<longrightarrow> vecpTermNodes ! i = vecpTermNodes ! j \<longrightarrow> i = j)"

text \<open>
  The constructor \<open>CPoisson::CPoisson\<close> has an empty body: the four scratch vectors start
  empty.
\<close>

definition CPoisson_new :: CPoisson where
  "CPoisson_new = \<lparr>vecdNum = [], vecdDen = [], vecdMax = [], vecdMin = []\<rparr>"

text \<open>A store in which every node predicts 0.0, for the examples.\<close>

definition blank_store :: store where
  "blank_store = (\<lambda>p. \<lparr>dPrediction = Fin 0\<rparr>)"

section \<open>Properties\<close>

lemma dadd_zero_right: "dadd x (Fin 0) = x"
  by (cases x) simp_all

lemma ComputeWorkingResponse_length:
  "length (ComputeWorkingResponse adY adMisc adOffset adF adZ adWeight afInBag nTrain cIdxOff)
     = length adZ"
  unfolding ComputeWorkingResponse_def
  by (induction nTrain) (simp_all add: Let_def)

subsection \<open>Addition and sums\<close>

lemma dadd_comm: "dadd x y = dadd y x"
  by (cases x; cases y) simp_all

lemma dadd_assoc: "dadd (dadd x y) z = dadd x (dadd y z)"
  by (cases x; cases y; cases z) simp_all

lemma dadd_zero_left: "dadd (Fin 0) x = x"
  by (cases x) simp_all

text \<open>A loop that adds into two accumulators computes two sums.\<close>

lemma fold_dadd_pair:
  "fold (\<lambda>i (s, d). (dadd s (g i), dadd d (h i))) xs (a, b)
     = (dadd a (dsum (map g xs)), dadd b (dsum (map h xs)))"
proof (induction xs arbitrary: a b)
  case Nil
  show ?case by (simp add: dadd_zero_right)
next
  case (Cons x xs)
  show ?case by (simp add: Cons.IH dadd_assoc)
qed

lemma fold_dadd_pair_filter:
  "fold (\<lambda>i (s, d). if P i then (dadd s (g i), dadd d (h i)) else (s, d)) xs (a, b)
     = (dadd a (dsum (map g (filter P xs))), dadd b (dsum (map h (filter P xs))))"
proof (induction xs arbitrary: a b)
  case Nil
  show ?case by (simp add: dadd_zero_right)
next
  case (Cons x xs)
  show ?case by (simp add: Cons.IH dadd_assoc)
qed

subsection \<open>ComputeWorkingResponse\<close>

lemma fold_update_nth:
  "n \<le> length adZ \<Longrightarrow> i < n \<Longrightarrow> fold (\<lambda>i z. z[i := g i]) [0..<n] adZ ! i = g i"
proof (induction n)
  case 0
  then show ?case by simp
next
  case (Suc n)
  have len: "length (fold (\<lambda>i z. z[i := g i]) [0..<n] adZ) = length adZ"
    by (induction n) simp_all
  show ?case
  proof (cases "i = n")
    case True
    then show ?thesis using Suc.prems len by simp
  next
    case False
    then show ?thesis using Suc by simp
  qed
qed

text \<open>
  Claim C4. After \<open>ComputeWorkingResponse\<close>, for every \<open>i\<close> below \<open>nTrain\<close> the entry \<open>z[i]\<close> is
  \<open>y[i] - exp (f[i] + offset[i])\<close>, the offset counting as 0 when the array is absent, and
  the result is the same whatever the weight and in-bag arrays are.
\<close>

theorem ComputeWorkingResponse_spec:
  assumes "nTrain \<le> length adZ" and "i < nTrain"
  shows "ComputeWorkingResponse adY adMisc adOffset adF adZ adWeight afInBag nTrain cIdxOff ! i
           = dsub (adY ! i) (dexp (eta adOffset adF i))
         \<and> ComputeWorkingResponse adY adMisc adOffset adF adZ adWeight' afInBag' nTrain cIdxOff
           = ComputeWorkingResponse adY adMisc adOffset adF adZ adWeight afInBag nTrain cIdxOff"
  using fold_update_nth [OF assms, of "\<lambda>i. dsub (adY ! i) (dexp (eta adOffset adF i))"]
  by (simp add: ComputeWorkingResponse_def eta_def Let_def)

theorem ComputeWorkingResponse_spec_witness:
  "(3::nat) \<le> length [Fin 0, Fin 0, Fin 0] \<and> (1::nat) < 3
   \<and> ComputeWorkingResponse [Fin 1, Fin 2, Fin 3] [] None [Fin 0, Fin 0, Fin 0]
        [Fin 0, Fin 0, Fin 0] [Fin 1, Fin 1, Fin 1] [1, 1, 1] 3 0 ! 1 = Fin 1"
  using ComputeWorkingResponse_spec [where nTrain = 3 and adZ = "[Fin 0, Fin 0, Fin 0]"
      and i = 1 and adY = "[Fin 1, Fin 2, Fin 3]" and adMisc = "[]" and adOffset = None
      and adF = "[Fin 0, Fin 0, Fin 0]" and adWeight = "[Fin 1, Fin 1, Fin 1]"
      and afInBag = "[1, 1, 1]" and cIdxOff = 0]
  by (simp add: eta_def dsub_def)

lemma all_less_2: "(\<forall>i < (2::nat). P i) \<longleftrightarrow> P 0 \<and> P 1"
  by (auto simp: less_Suc_eq numeral_2_eq_2)

lemma dsum_all_zero: "(\<forall>x \<in> set xs. x = Fin 0) \<Longrightarrow> dsum xs = Fin 0"
  by (induction xs) simp_all

lemma dsum_finite: "(\<forall>x \<in> set xs. is_finite x) \<Longrightarrow> is_finite (dsum xs)"
proof (induction xs)
  case Nil
  show ?case by simp
next
  case (Cons x xs)
  then obtain a b where "x = Fin a" "dsum xs = Fin b"
    by (cases x; cases "dsum xs") simp_all
  then show ?case by simp
qed

lemma is_finite_eq: "is_finite x \<Longrightarrow> x = Fin (the_real x)"
  by (cases x) simp_all

lemma dsum_map_Fin:
  "(\<forall>i \<in> set xs. g i = Fin (r i)) \<Longrightarrow> dsum (map g xs) = Fin (sum_list (map r xs))"
  by (induction xs) simp_all

lemma all_less_3: "(\<forall>i < (3::nat). P i) \<longleftrightarrow> P 0 \<and> P 1 \<and> P 2"
  by (auto simp: less_Suc_eq numeral_3_eq_3 numeral_2_eq_2)

subsection \<open>InitF\<close>

lemma InitF_sums:
  "InitF adY adMisc adOffset adWeight n =
     dlog (ddiv (dsum (map (\<lambda>i. dmul (adWeight ! i) (adY ! i)) [0..<n]))
                (dsum (map (\<lambda>i. case adOffset of None \<Rightarrow> adWeight ! i
                                 | Some off \<Rightarrow> dmul (adWeight ! i) (dexp (off ! i))) [0..<n])))"
  by (cases adOffset) (simp_all add: InitF_def fold_dadd_pair dadd_zero_left)

lemma InitF_real:
  assumes fin: "\<forall>i < n. is_finite (adY ! i) \<and> is_finite (adWeight ! i)
                  \<and> (case adOffset of None \<Rightarrow> True | Some off \<Rightarrow> is_finite (off ! i))"
    and pos: "0 < sum_list (map (\<lambda>i. the_real (adWeight ! i) * the_real (adY ! i)) [0..<n])
                / sum_list (map (\<lambda>i. the_real (adWeight ! i)
                     * (case adOffset of None \<Rightarrow> 1 | Some off \<Rightarrow> exp (the_real (off ! i))))
                    [0..<n])"
  shows "InitF adY adMisc adOffset adWeight n
         = Fin (ln (sum_list (map (\<lambda>i. the_real (adWeight ! i) * the_real (adY ! i)) [0..<n])
                / sum_list (map (\<lambda>i. the_real (adWeight ! i)
                     * (case adOffset of None \<Rightarrow> 1 | Some off \<Rightarrow> exp (the_real (off ! i))))
                    [0..<n])))"
proof -
  let ?S = "sum_list (map (\<lambda>i. the_real (adWeight ! i) * the_real (adY ! i)) [0..<n])"
  let ?D = "sum_list (map (\<lambda>i. the_real (adWeight ! i)
              * (case adOffset of None \<Rightarrow> 1 | Some off \<Rightarrow> exp (the_real (off ! i)))) [0..<n])"
  have s: "dsum (map (\<lambda>i. dmul (adWeight ! i) (adY ! i)) [0..<n]) = Fin ?S"
  proof (rule dsum_map_Fin, rule ballI)
    fix i assume "i \<in> set [0..<n]"
    then have "is_finite (adY ! i)" "is_finite (adWeight ! i)" using fin by simp_all
    then show "dmul (adWeight ! i) (adY ! i) = Fin (the_real (adWeight ! i) * the_real (adY ! i))"
      by (cases "adY ! i"; cases "adWeight ! i") simp_all
  qed
  have d: "dsum (map (\<lambda>i. case adOffset of None \<Rightarrow> adWeight ! i
                          | Some off \<Rightarrow> dmul (adWeight ! i) (dexp (off ! i))) [0..<n]) = Fin ?D"
  proof (rule dsum_map_Fin, rule ballI)
    fix i assume i: "i \<in> set [0..<n]"
    then have w: "is_finite (adWeight ! i)" using fin by simp
    show "(case adOffset of None \<Rightarrow> adWeight ! i
           | Some off \<Rightarrow> dmul (adWeight ! i) (dexp (off ! i)))
          = Fin (the_real (adWeight ! i)
                 * (case adOffset of None \<Rightarrow> 1 | Some off \<Rightarrow> exp (the_real (off ! i))))"
    proof (cases adOffset)
      case None
      then show ?thesis using w by (cases "adWeight ! i") simp_all
    next
      case (Some off)
      then have "is_finite (off ! i)" using fin i by simp
      then show ?thesis using w Some by (cases "adWeight ! i"; cases "off ! i") simp_all
    qed
  qed
  have "?D \<noteq> 0" using pos by auto
  then show ?thesis using pos by (simp add: InitF_sums s d)
qed

text \<open>
  Claim C5. \<open>InitF\<close> returns \<open>log (\<Sigma> weight[i] * y[i] / \<Sigma> weight[i] * exp (offset[i]))\<close>, the
  sums over the indices below \<open>n\<close>, where the denominator is \<open>\<Sigma> weight[i]\<close> when the offset
  is absent. On finite inputs whose ratio of sums is positive, this is the real number
  given by the same formula.
\<close>

theorem InitF_spec:
  "InitF adY adMisc adOffset adWeight n =
     dlog (ddiv (dsum (map (\<lambda>i. dmul (adWeight ! i) (adY ! i)) [0..<n]))
                (dsum (map (\<lambda>i. case adOffset of None \<Rightarrow> adWeight ! i
                                 | Some off \<Rightarrow> dmul (adWeight ! i) (dexp (off ! i))) [0..<n])))
   \<and> ((\<forall>i < n. is_finite (adY ! i) \<and> is_finite (adWeight ! i)
                \<and> (case adOffset of None \<Rightarrow> True | Some off \<Rightarrow> is_finite (off ! i)))
        \<and> 0 < sum_list (map (\<lambda>i. the_real (adWeight ! i) * the_real (adY ! i)) [0..<n])
                / sum_list (map (\<lambda>i. the_real (adWeight ! i)
                     * (case adOffset of None \<Rightarrow> 1 | Some off \<Rightarrow> exp (the_real (off ! i))))
                    [0..<n])
      \<longrightarrow> InitF adY adMisc adOffset adWeight n
          = Fin (ln (sum_list (map (\<lambda>i. the_real (adWeight ! i) * the_real (adY ! i)) [0..<n])
                / sum_list (map (\<lambda>i. the_real (adWeight ! i)
                     * (case adOffset of None \<Rightarrow> 1 | Some off \<Rightarrow> exp (the_real (off ! i))))
                    [0..<n]))))"
  using InitF_sums [of adY adMisc adOffset adWeight n]
    InitF_real [of n adY adWeight adOffset adMisc]
  by blast

theorem InitF_spec_witness:
  "InitF [Fin 1, Fin 2, Fin 3] [] None [Fin 1, Fin 1, Fin 1] 3 = Fin (ln 2)"
proof -
  let ?S = "sum_list (map (\<lambda>i. the_real ([Fin 1, Fin 1, Fin 1] ! i)
                            * the_real ([Fin 1, Fin 2, Fin 3] ! i)) [0..<3])"
  let ?D = "sum_list (map (\<lambda>i. the_real ([Fin 1, Fin 1, Fin 1] ! i)
                            * (case None :: dbl list option of None \<Rightarrow> 1
                               | Some off \<Rightarrow> exp (the_real (off ! i)))) [0..<3])"
  have fin: "\<forall>i < (3::nat). is_finite ([Fin 1, Fin 2, Fin 3] ! i)
               \<and> is_finite ([Fin 1, Fin 1, Fin 1] ! i)
               \<and> (case None :: dbl list option of None \<Rightarrow> True
                   | Some off \<Rightarrow> is_finite (off ! i))"
    by (simp add: all_less_3)
  have s: "?S = 6" by (simp add: upt_rec)
  have d: "?D = 3" by (simp add: upt_rec)
  have pos: "0 < ?S / ?D" unfolding s d by simp
  have "InitF [Fin 1, Fin 2, Fin 3] [] None [Fin 1, Fin 1, Fin 1] 3 = Fin (ln (?S / ?D))"
    using InitF_spec [of "[Fin 1, Fin 2, Fin 3]" "[]" None "[Fin 1, Fin 1, Fin 1]" 3] fin pos
    by blast
  then show ?thesis unfolding s d by simp
qed

subsection \<open>Deviance\<close>

lemma Deviance_sums:
  "Deviance adY adMisc adOffset adWeight adF cLength cIdxOff =
     ddiv (dmul (Fin (- 2))
             (dsum (map (\<lambda>i. dmul (adWeight ! i)
                               (dsub (dmul (adY ! i) (eta adOffset adF i))
                                     (dexp (eta adOffset adF i))))
                      [ulong_of_int cIdxOff ..< ulong_add cLength (ulong_of_int cIdxOff)])))
          (dsum (map (\<lambda>i. adWeight ! i)
                   [ulong_of_int cIdxOff ..< ulong_add cLength (ulong_of_int cIdxOff)]))"
proof (cases adOffset)
  case None
  then show ?thesis
    by (simp add: Deviance_def fold_dadd_pair dadd_zero_left eta_def dadd_zero_right)
next
  case (Some off)
  then show ?thesis
    by (simp add: Deviance_def fold_dadd_pair dadd_zero_left eta_def dadd_comm [of "off ! _"])
qed

lemma ulong_range:
  assumes "0 \<le> cIdxOff" and "int cLength + cIdxOff < 2 ^ 64"
  shows "ulong_of_int cIdxOff = nat cIdxOff"
    and "ulong_add cLength (nat cIdxOff) = nat cIdxOff + cLength"
proof -
  have lt: "cIdxOff < 2 ^ 64" using assms by linarith
  show a: "ulong_of_int cIdxOff = nat cIdxOff"
    using assms(1) lt by (simp add: ulong_of_int_def)
  have "cLength + nat cIdxOff < 2 ^ 64"
    using assms by (simp add: nat_less_iff nat_add_distrib) 
  then show "ulong_add cLength (nat cIdxOff) = nat cIdxOff + cLength"
    by (simp add: ulong_add_def add.commute)
qed

lemma Deviance_real:
  assumes fin: "\<forall>i \<in> set [ulong_of_int cIdxOff ..< ulong_add cLength (ulong_of_int cIdxOff)].
                  is_finite (adY ! i) \<and> is_finite (adWeight ! i) \<and> is_finite (eta adOffset adF i)"
    and nz: "sum_list (map (\<lambda>i. the_real (adWeight ! i))
               [ulong_of_int cIdxOff ..< ulong_add cLength (ulong_of_int cIdxOff)]) \<noteq> 0"
  shows "Deviance adY adMisc adOffset adWeight adF cLength cIdxOff
         = Fin (- 2 * sum_list (map (\<lambda>i. the_real (adWeight ! i)
                   * (the_real (adY ! i) * the_real (eta adOffset adF i)
                      - exp (the_real (eta adOffset adF i))))
                 [ulong_of_int cIdxOff ..< ulong_add cLength (ulong_of_int cIdxOff)])
                / sum_list (map (\<lambda>i. the_real (adWeight ! i))
                    [ulong_of_int cIdxOff ..< ulong_add cLength (ulong_of_int cIdxOff)]))"
proof -
  let ?is = "[ulong_of_int cIdxOff ..< ulong_add cLength (ulong_of_int cIdxOff)]"
  have l: "dsum (map (\<lambda>i. dmul (adWeight ! i)
                         (dsub (dmul (adY ! i) (eta adOffset adF i)) (dexp (eta adOffset adF i))))
             ?is)
           = Fin (sum_list (map (\<lambda>i. the_real (adWeight ! i)
                   * (the_real (adY ! i) * the_real (eta adOffset adF i)
                      - exp (the_real (eta adOffset adF i)))) ?is))"
  proof (rule dsum_map_Fin, rule ballI)
    fix i assume "i \<in> set ?is"
    then have "is_finite (adY ! i)" "is_finite (adWeight ! i)" "is_finite (eta adOffset adF i)"
      using fin by blast+
    then show "dmul (adWeight ! i)
                 (dsub (dmul (adY ! i) (eta adOffset adF i)) (dexp (eta adOffset adF i)))
               = Fin (the_real (adWeight ! i)
                   * (the_real (adY ! i) * the_real (eta adOffset adF i)
                      - exp (the_real (eta adOffset adF i))))"
      by (cases "adY ! i"; cases "adWeight ! i"; cases "eta adOffset adF i")
         (simp_all add: dsub_def)
  qed
  have w: "dsum (map (\<lambda>i. adWeight ! i) ?is) = Fin (sum_list (map (\<lambda>i. the_real (adWeight ! i)) ?is))"
  proof (rule dsum_map_Fin, rule ballI)
    fix i assume "i \<in> set ?is"
    then have "is_finite (adWeight ! i)" using fin by blast
    then show "adWeight ! i = Fin (the_real (adWeight ! i))" by (rule is_finite_eq)
  qed
  show ?thesis using nz by (simp add: Deviance_sums l w)
qed

text \<open>
  Claim C6. For an index offset that is not negative and a range that ends below \<open>2^64\<close>
  (as every range inside an array does), \<open>Deviance\<close> returns
  \<open>-2 * (\<Sigma> weight[i] * (y[i] * \<eta>[i] - exp \<eta>[i])) / \<Sigma> weight[i]\<close>, both sums over the
  indices from \<open>indexOffset\<close> up to, and without, \<open>indexOffset + n\<close>, with
  \<open>\<eta>[i] = f[i] + offset[i]\<close> and the offset counting as 0 when absent. On finite inputs
  whose weights do not sum to zero, this is the real number given by the same formula.
\<close>

theorem Deviance_spec:
  assumes "0 \<le> cIdxOff" and "int cLength + cIdxOff < 2 ^ 64"
  shows "Deviance adY adMisc adOffset adWeight adF cLength cIdxOff =
     ddiv (dmul (Fin (- 2))
             (dsum (map (\<lambda>i. dmul (adWeight ! i)
                               (dsub (dmul (adY ! i) (eta adOffset adF i))
                                     (dexp (eta adOffset adF i))))
                      [nat cIdxOff ..< nat cIdxOff + cLength])))
          (dsum (map (\<lambda>i. adWeight ! i) [nat cIdxOff ..< nat cIdxOff + cLength]))
    \<and> ((\<forall>i \<in> set [nat cIdxOff ..< nat cIdxOff + cLength].
            is_finite (adY ! i) \<and> is_finite (adWeight ! i) \<and> is_finite (eta adOffset adF i))
        \<and> sum_list (map (\<lambda>i. the_real (adWeight ! i))
              [nat cIdxOff ..< nat cIdxOff + cLength]) \<noteq> 0
      \<longrightarrow> Deviance adY adMisc adOffset adWeight adF cLength cIdxOff
          = Fin (- 2 * sum_list (map (\<lambda>i. the_real (adWeight ! i)
                     * (the_real (adY ! i) * the_real (eta adOffset adF i)
                        - exp (the_real (eta adOffset adF i))))
                   [nat cIdxOff ..< nat cIdxOff + cLength])
                 / sum_list (map (\<lambda>i. the_real (adWeight ! i))
                     [nat cIdxOff ..< nat cIdxOff + cLength])))"
  using Deviance_sums [of adY adMisc adOffset adWeight adF cLength cIdxOff]
    Deviance_real [of cIdxOff cLength adY adWeight adOffset adF adMisc]
  unfolding ulong_range [OF assms]
  by blast

theorem Deviance_spec_witness:
  "(0::int) \<le> 1 \<and> int 2 + 1 < 2 ^ 64
   \<and> Deviance [Fin 1, Fin 2, Fin 3] [] None [Fin 1, Fin 1, Fin 1] [Fin 0, Fin 0, Fin 0] 2 1
       = Fin 2"
proof -
  have a: "(0::int) \<le> 1" by simp
  have b: "int 2 + 1 < 2 ^ 64" by simp
  have r: "[nat 1 ..< nat 1 + 2] = [1, 2]" by (simp add: upt_rec)
  have "Deviance [Fin 1, Fin 2, Fin 3] [] None [Fin 1, Fin 1, Fin 1] [Fin 0, Fin 0, Fin 0] 2 1
          = ddiv (dmul (Fin (- 2))
               (dsum (map (\<lambda>i. dmul ([Fin 1, Fin 1, Fin 1] ! i)
                    (dsub (dmul ([Fin 1, Fin 2, Fin 3] ! i) (eta None [Fin 0, Fin 0, Fin 0] i))
                          (dexp (eta None [Fin 0, Fin 0, Fin 0] i))))
                  [nat 1 ..< nat 1 + 2])))
             (dsum (map (\<lambda>i. [Fin 1, Fin 1, Fin 1] ! i) [nat 1 ..< nat 1 + 2]))"
    using Deviance_spec [OF a b, of "[Fin 1, Fin 2, Fin 3]" "[]" None "[Fin 1, Fin 1, Fin 1]"
        "[Fin 0, Fin 0, Fin 0]"]
    by (rule conjunct1)
  also have "\<dots> = Fin 2"
    unfolding r by (simp add: eta_def dsub_def)
  finally show ?thesis using a b by simp
qed





subsection \<open>BagImprovement\<close>

lemma BagImprovement_sums:
  "BagImprovement adY adMisc adOffset adWeight adF adFadj afInBag dStepSize nTrain =
     ddiv (dsum (map (\<lambda>i. dmul (adWeight ! i)
                        (dadd (dsub (dmul (dmul (adY ! i) dStepSize) (adFadj ! i))
                                    (dexp (dadd (eta adOffset adF i)
                                             (dmul dStepSize (adFadj ! i)))))
                              (dexp (eta adOffset adF i))))
                   (filter (\<lambda>i. afInBag ! i = 0) [0..<nTrain])))
          (dsum (map (\<lambda>i. adWeight ! i) (filter (\<lambda>i. afInBag ! i = 0) [0..<nTrain])))"
  unfolding BagImprovement_def Let_def eta_def
  by (simp add: fold_dadd_pair_filter dadd_zero_left)

lemma step_zero_term:
  assumes "is_finite y" "is_finite w" "is_finite e" "is_finite a"
  shows "dmul w (dadd (dsub (dmul (dmul y (Fin 0)) a) (dexp (dadd e (dmul (Fin 0) a)))) (dexp e))
           = Fin 0"
  using assms by (cases y; cases w; cases e; cases a) (simp_all add: dsub_def)

text \<open>
  Claim C3, as the specification states it, fails: with a step size of 0 and every
  observation in-bag the weight sum is zero and the result is \<open>0/0\<close>, NaN.
\<close>

theorem BagImprovement_zero_step_counterexample:
  "BagImprovement [Fin 1] [] None [Fin 1] [Fin 0] [Fin 1] [1] (Fin 0) 1 \<noteq> Fin 0"
  by (simp add: BagImprovement_def)

text \<open>
  Claim C3, amended. With a step size of 0, \<open>BagImprovement\<close> returns 0.0 whenever, over the
  out-of-bag observations, \<open>y\<close> and \<open>fAdj\<close> are finite, the weights are finite, not negative
  and do not sum to zero, and \<open>f + offset\<close> is finite and at most 709. The bound keeps
  \<open>exp (f + offset)\<close> below the largest double: where \<open>std::exp\<close> overflows, the term is
  \<open>-\<infinity> + \<infinity>\<close>, and the theorem says nothing.
\<close>

theorem BagImprovement_zero_step:
  assumes fin: "\<forall>i < nTrain. afInBag ! i = 0 \<longrightarrow>
                  is_finite (adY ! i) \<and> is_finite (adFadj ! i)
                  \<and> is_finite (adWeight ! i) \<and> dle (Fin 0) (adWeight ! i)
                  \<and> is_finite (eta adOffset adF i) \<and> the_real (eta adOffset adF i) \<le> 709"
    and nz: "dsum (map (\<lambda>i. adWeight ! i) (filter (\<lambda>i. afInBag ! i = 0) [0..<nTrain])) \<noteq> Fin 0"
  shows "BagImprovement adY adMisc adOffset adWeight adF adFadj afInBag (Fin 0) nTrain = Fin 0"
proof -
  let ?out = "filter (\<lambda>i. afInBag ! i = 0) [0..<nTrain]"
  have num: "dsum (map (\<lambda>i. dmul (adWeight ! i)
                        (dadd (dsub (dmul (dmul (adY ! i) (Fin 0)) (adFadj ! i))
                                    (dexp (dadd (eta adOffset adF i)
                                             (dmul (Fin 0) (adFadj ! i)))))
                              (dexp (eta adOffset adF i)))) ?out) = Fin 0"
  proof (rule dsum_all_zero, rule ballI)
    fix t
    assume "t \<in> set (map (\<lambda>i. dmul (adWeight ! i)
                        (dadd (dsub (dmul (dmul (adY ! i) (Fin 0)) (adFadj ! i))
                                    (dexp (dadd (eta adOffset adF i)
                                             (dmul (Fin 0) (adFadj ! i)))))
                              (dexp (eta adOffset adF i)))) ?out)"
    then obtain i where i: "i < nTrain" "afInBag ! i = 0"
      and t: "t = dmul (adWeight ! i)
                    (dadd (dsub (dmul (dmul (adY ! i) (Fin 0)) (adFadj ! i))
                                (dexp (dadd (eta adOffset adF i)
                                         (dmul (Fin 0) (adFadj ! i)))))
                          (dexp (eta adOffset adF i)))"
      by auto
    from fin i have "is_finite (adY ! i)" "is_finite (adWeight ! i)"
      "is_finite (eta adOffset adF i)" "is_finite (adFadj ! i)"
      by blast+
    then show "t = Fin 0" unfolding t by (rule step_zero_term)
  qed
  have "is_finite (dsum (map (\<lambda>i. adWeight ! i) ?out))"
  proof (rule dsum_finite, rule ballI)
    fix w
    assume "w \<in> set (map (\<lambda>i. adWeight ! i) ?out)"
    then obtain i where "i < nTrain" "afInBag ! i = 0" "w = adWeight ! i" by auto
    with fin show "is_finite w" by blast
  qed
  then obtain w where w: "dsum (map (\<lambda>i. adWeight ! i) ?out) = Fin w"
    by (cases "dsum (map (\<lambda>i. adWeight ! i) ?out)") simp_all
  with nz have "w \<noteq> 0" by simp
  then show ?thesis
    by (simp add: BagImprovement_sums num w)
qed

theorem BagImprovement_zero_step_witness:
  "BagImprovement [Fin 3, Fin 2] [] None [Fin 1, Fin 2] [Fin 0, Fin 1] [Fin 1, Fin 4] [1, 0]
     (Fin 0) 2 = Fin 0"
proof -
  have fin: "\<forall>i < (2::nat). [1, 0::int] ! i = 0 \<longrightarrow>
               is_finite ([Fin 3, Fin 2] ! i) \<and> is_finite ([Fin 1, Fin 4] ! i)
               \<and> is_finite ([Fin 1, Fin 2] ! i) \<and> dle (Fin 0) ([Fin 1, Fin 2] ! i)
               \<and> is_finite (eta None [Fin 0, Fin 1] i)
               \<and> the_real (eta None [Fin 0, Fin 1] i) \<le> 709"
    by (simp add: all_less_2 eta_def)
  have nz: "dsum (map (\<lambda>i. [Fin 1, Fin 2] ! i) (filter (\<lambda>i. [1, 0::int] ! i = 0) [0..<2]))
              \<noteq> Fin 0"
    by (simp add: upt_rec)
  show ?thesis
    by (rule BagImprovement_zero_step [OF fin nz])
qed

subsection \<open>Degenerate sums\<close>

lemma ddiv_zero_not_finite: "\<not> is_finite (ddiv x (Fin 0))"
  by (cases x) simp_all

lemma dlog_nonpos_not_finite: "dle x (Fin 0) \<Longrightarrow> \<not> is_finite (dlog x)"
  by (cases x) auto

text \<open>
  Claim C9. \<open>InitF\<close>, \<open>Deviance\<close> and \<open>BagImprovement\<close> have no error result: each returns a
  double on every input. When the argument of the logarithm in \<open>InitF\<close> is zero or negative
  the result is not finite; when the weight sum that \<open>Deviance\<close> or \<open>BagImprovement\<close>
  divides by is zero the result is not finite; and when every observation is in-bag
  \<open>BagImprovement\<close> returns NaN.
\<close>

theorem no_trap:
  "(dle (ddiv (dsum (map (\<lambda>i. dmul (adWeight ! i) (adY ! i)) [0..<n]))
              (dsum (map (\<lambda>i. case adOffset of None \<Rightarrow> adWeight ! i
                               | Some off \<Rightarrow> dmul (adWeight ! i) (dexp (off ! i))) [0..<n])))
        (Fin 0)
      \<longrightarrow> \<not> is_finite (InitF adY adMisc adOffset adWeight n))
   \<and> (dsum (map (\<lambda>i. adWeight ! i)
              [ulong_of_int cIdxOff ..< ulong_add cLength (ulong_of_int cIdxOff)]) = Fin 0
      \<longrightarrow> \<not> is_finite (Deviance adY adMisc adOffset adWeight adF cLength cIdxOff))
   \<and> (dsum (map (\<lambda>i. adWeight ! i) (filter (\<lambda>i. afInBag ! i = 0) [0..<nTrain])) = Fin 0
      \<longrightarrow> \<not> is_finite
            (BagImprovement adY adMisc adOffset adWeight adF adFadj afInBag dStepSize nTrain))
   \<and> ((\<forall>i < nTrain. afInBag ! i \<noteq> 0)
      \<longrightarrow> BagImprovement adY adMisc adOffset adWeight adF adFadj afInBag dStepSize nTrain
            = NaN)"
proof (intro conjI impI)
  assume "dle (ddiv (dsum (map (\<lambda>i. dmul (adWeight ! i) (adY ! i)) [0..<n]))
              (dsum (map (\<lambda>i. case adOffset of None \<Rightarrow> adWeight ! i
                               | Some off \<Rightarrow> dmul (adWeight ! i) (dexp (off ! i))) [0..<n])))
        (Fin 0)"
  then show "\<not> is_finite (InitF adY adMisc adOffset adWeight n)"
    unfolding InitF_sums by (rule dlog_nonpos_not_finite)
next
  assume "dsum (map (\<lambda>i. adWeight ! i)
              [ulong_of_int cIdxOff ..< ulong_add cLength (ulong_of_int cIdxOff)]) = Fin 0"
  then show "\<not> is_finite (Deviance adY adMisc adOffset adWeight adF cLength cIdxOff)"
    unfolding Deviance_sums by (simp only: ddiv_zero_not_finite not_False_eq_True)
next
  assume "dsum (map (\<lambda>i. adWeight ! i) (filter (\<lambda>i. afInBag ! i = 0) [0..<nTrain])) = Fin 0"
  then show "\<not> is_finite
            (BagImprovement adY adMisc adOffset adWeight adF adFadj afInBag dStepSize nTrain)"
    unfolding BagImprovement_sums by (simp only: ddiv_zero_not_finite not_False_eq_True)
next
  assume "\<forall>i < nTrain. afInBag ! i \<noteq> 0"
  then have "filter (\<lambda>i. afInBag ! i = 0) [0..<nTrain] = []"
    by (simp add: filter_empty_conv)
  then show "BagImprovement adY adMisc adOffset adWeight adF adFadj afInBag dStepSize nTrain
            = NaN"
    by (simp add: BagImprovement_sums)
qed

theorem no_trap_witness:
  "\<not> is_finite (InitF [Fin 0] [] None [Fin 1] 1)
   \<and> \<not> is_finite (Deviance [Fin 1] [] None [Fin 0] [Fin 0] 1 0)
   \<and> \<not> is_finite (BagImprovement [Fin 1, Fin 1] [] None [Fin 1, Fin 0] [Fin 0, Fin 0]
                      [Fin 1, Fin 1] [1, 0] (Fin 1) 2)
   \<and> BagImprovement [Fin 1] [] None [Fin 1] [Fin 0] [Fin 1] [1] (Fin 1) 1 = NaN"
proof -
  have a: "\<not> is_finite (InitF [Fin 0] [] None [Fin 1] 1)"
    using no_trap [where adWeight = "[Fin 1]" and adY = "[Fin 0]" and n = 1
        and adOffset = None and adMisc = "[]"]
    by simp
  have b: "\<not> is_finite (Deviance [Fin 1] [] None [Fin 0] [Fin 0] 1 0)"
    using no_trap [where adWeight = "[Fin 0]" and adY = "[Fin 1]" and cLength = 1
        and cIdxOff = 0 and adOffset = None and adMisc = "[]" and adF = "[Fin 0]"]
    by (simp add: ulong_add_def ulong_of_int_def)
  have c: "\<not> is_finite (BagImprovement [Fin 1, Fin 1] [] None [Fin 1, Fin 0] [Fin 0, Fin 0]
                      [Fin 1, Fin 1] [1, 0] (Fin 1) 2)"
    using no_trap [where adWeight = "[Fin 1, Fin 0]" and adY = "[Fin 1, Fin 1]" and nTrain = 2
        and afInBag = "[1, 0]" and adOffset = None and adMisc = "[]" and adF = "[Fin 0, Fin 0]"
        and adFadj = "[Fin 1, Fin 1]" and dStepSize = "Fin 1"]
    by (simp add: upt_rec)
  have d: "BagImprovement [Fin 1] [] None [Fin 1] [Fin 0] [Fin 1] [1] (Fin 1) 1 = NaN"
    using no_trap [where adWeight = "[Fin 1]" and adY = "[Fin 1]" and nTrain = 1
        and afInBag = "[1]" and adOffset = None and adMisc = "[]" and adF = "[Fin 0]"
        and adFadj = "[Fin 1]" and dStepSize = "Fin 1"]
    by simp
  show ?thesis using a b c d by simp
qed

subsection \<open>FitBestConstant: the observation loop\<close>

lemma fold_dadd: "fold (\<lambda>i s. dadd s (g i)) xs a = dadd a (dsum (map g xs))"
proof (induction xs arbitrary: a)
  case Nil
  show ?case by (simp add: dadd_zero_right)
next
  case (Cons x xs)
  show ?case by (simp add: Cons.IH dadd_assoc)
qed

text \<open>A loop that updates one cell of a vector per step: what cell \<open>k\<close> holds at the end.\<close>

lemma fold_cell:
  "k < length v \<Longrightarrow>
   fold (\<lambda>i v. if P i then v[a i := F i (v ! a i)] else v) xs v ! k
     = fold F (filter (\<lambda>i. P i \<and> a i = k) xs) (v ! k)"
proof (induction xs arbitrary: v)
  case Nil
  show ?case by simp
next
  case (Cons x xs)
  show ?case
  proof (cases "P x")
    case True
    have "k < length (v[a x := F x (v ! a x)])" using Cons.prems by simp
    from Cons.IH [OF this] show ?thesis
      using True Cons.prems by (cases "a x = k") simp_all
  next
    case False
    then show ?thesis using Cons.IH [OF Cons.prems] by simp
  qed
qed

lemma fold_cell_length:
  "length (fold (\<lambda>i v. if P i then v[a i := F i (v ! a i)] else v) xs v) = length v"
  by (induction xs arbitrary: v) simp_all

lemma obs_null_Num:
  "vecdNum (fold (FitBestConstant_obs_null adY adW adF aiNodeAssign afInBag) xs s)
     = fold (\<lambda>i v. if afInBag ! i \<noteq> 0
                    then v[aiNodeAssign ! i := (\<lambda>i x. dadd x (dmul (adW ! i) (adY ! i))) i
                                                  (v ! (aiNodeAssign ! i))]
                    else v) xs (vecdNum s)"
  by (induction xs arbitrary: s) (simp_all add: FitBestConstant_obs_null_def Let_def)

lemma obs_null_Den:
  "vecdDen (fold (FitBestConstant_obs_null adY adW adF aiNodeAssign afInBag) xs s)
     = fold (\<lambda>i v. if afInBag ! i \<noteq> 0
                    then v[aiNodeAssign ! i := (\<lambda>i x. dadd x (dmul (adW ! i) (dexp (adF ! i)))) i
                                                  (v ! (aiNodeAssign ! i))]
                    else v) xs (vecdDen s)"
  by (induction xs arbitrary: s) (simp_all add: FitBestConstant_obs_null_def Let_def)

lemma obs_null_Max:
  "vecdMax (fold (FitBestConstant_obs_null adY adW adF aiNodeAssign afInBag) xs s)
     = fold (\<lambda>i v. if True
                    then v[aiNodeAssign ! i := (\<lambda>i x. fmax2 (adF ! i) x) i
                                                  (v ! (aiNodeAssign ! i))]
                    else v) xs (vecdMax s)"
  by (induction xs arbitrary: s) (simp_all add: FitBestConstant_obs_null_def Let_def)

lemma obs_null_Min:
  "vecdMin (fold (FitBestConstant_obs_null adY adW adF aiNodeAssign afInBag) xs s)
     = fold (\<lambda>i v. if True
                    then v[aiNodeAssign ! i := (\<lambda>i x. fmin2 (adF ! i) x) i
                                                  (v ! (aiNodeAssign ! i))]
                    else v) xs (vecdMin s)"
  by (induction xs arbitrary: s) (simp_all add: FitBestConstant_obs_null_def Let_def)

lemma obs_offset_Num:
  "vecdNum (fold (FitBestConstant_obs_offset adY off adW adF aiNodeAssign afInBag) xs s)
     = fold (\<lambda>i v. if afInBag ! i \<noteq> 0
                    then v[aiNodeAssign ! i := (\<lambda>i x. dadd x (dmul (adW ! i) (adY ! i))) i
                                                  (v ! (aiNodeAssign ! i))]
                    else v) xs (vecdNum s)"
  by (induction xs arbitrary: s) (simp_all add: FitBestConstant_obs_offset_def Let_def)

lemma obs_offset_Den:
  "vecdDen (fold (FitBestConstant_obs_offset adY off adW adF aiNodeAssign afInBag) xs s)
     = fold (\<lambda>i v. if afInBag ! i \<noteq> 0
                    then v[aiNodeAssign ! i :=
                             (\<lambda>i x. dadd x (dmul (adW ! i) (dexp (dadd (off ! i) (adF ! i))))) i
                                (v ! (aiNodeAssign ! i))]
                    else v) xs (vecdDen s)"
  by (induction xs arbitrary: s) (simp_all add: FitBestConstant_obs_offset_def Let_def)

lemma obs_offset_Max:
  "vecdMax (fold (FitBestConstant_obs_offset adY off adW adF aiNodeAssign afInBag) xs s)
     = vecdMax s"
  by (induction xs arbitrary: s) (simp_all add: FitBestConstant_obs_offset_def Let_def)

lemma obs_offset_Min:
  "vecdMin (fold (FitBestConstant_obs_offset adY off adW adF aiNodeAssign afInBag) xs s)
     = vecdMin s"
  by (induction xs arbitrary: s) (simp_all add: FitBestConstant_obs_offset_def Let_def)

lemma FitBestConstant_fst:
  "fst (FitBestConstant this h adY adMisc adOffset adW adF adZ aiNodeAssign nTrain vecpTermNodes
          cTermNodes cMinObsInNode afInBag adFadj cIdxOff)
     = (case adOffset of
          None \<Rightarrow> fold (FitBestConstant_obs_null adY adW adF aiNodeAssign afInBag)
                    [0..<nTrain] (FitBestConstant_reset cTermNodes this)
        | Some off \<Rightarrow> fold (FitBestConstant_obs_offset adY off adW adF aiNodeAssign afInBag)
                        [0..<nTrain] (FitBestConstant_reset cTermNodes this))"
  by (simp add: FitBestConstant_def Let_def)

lemma FitBestConstant_snd:
  "snd (FitBestConstant this h adY adMisc adOffset adW adF adZ aiNodeAssign nTrain vecpTermNodes
          cTermNodes cMinObsInNode afInBag adFadj cIdxOff)
     = fold (FitBestConstant_node
               (fst (FitBestConstant this h adY adMisc adOffset adW adF adZ aiNodeAssign nTrain
                       vecpTermNodes cTermNodes cMinObsInNode afInBag adFadj cIdxOff))
               vecpTermNodes)
            [0..<cTermNodes] h"
  by (simp add: FitBestConstant_def Let_def)

lemma FitBestConstant_Num:
  assumes "k < cTermNodes"
  shows "vecdNum (fst (FitBestConstant this h adY adMisc adOffset adW adF adZ aiNodeAssign nTrain
                   vecpTermNodes cTermNodes cMinObsInNode afInBag adFadj cIdxOff)) ! k
         = numerator adY adW aiNodeAssign afInBag nTrain k"
proof -
  have k: "k < length (vecdNum (FitBestConstant_reset cTermNodes this))"
    using assms by (simp add: FitBestConstant_reset_def)
  have z: "vecdNum (FitBestConstant_reset cTermNodes this) ! k = Fin 0"
    using assms by (simp add: FitBestConstant_reset_def)
  show ?thesis
    unfolding FitBestConstant_fst numerator_def bag_obs_def
    by (cases adOffset)
       (simp_all add: obs_null_Num obs_offset_Num z fold_dadd dadd_zero_left
          fold_cell [OF k, where a = "\<lambda>i. aiNodeAssign ! i"
            and F = "\<lambda>i x. dadd x (dmul (adW ! i) (adY ! i))"])
qed

lemma FitBestConstant_Den:
  assumes "k < cTermNodes"
  shows "vecdDen (fst (FitBestConstant this h adY adMisc adOffset adW adF adZ aiNodeAssign nTrain
                   vecpTermNodes cTermNodes cMinObsInNode afInBag adFadj cIdxOff)) ! k
         = denominator adOffset adW adF aiNodeAssign afInBag nTrain k"
proof -
  have k: "k < length (vecdDen (FitBestConstant_reset cTermNodes this))"
    using assms by (simp add: FitBestConstant_reset_def)
  have z: "vecdDen (FitBestConstant_reset cTermNodes this) ! k = Fin 0"
    using assms by (simp add: FitBestConstant_reset_def)
  show ?thesis
  proof (cases adOffset)
    case None
    then show ?thesis
      unfolding FitBestConstant_fst denominator_def bag_obs_def eta_def
      by (simp add: obs_null_Den z fold_dadd dadd_zero_left dadd_zero_right
            fold_cell [OF k, where a = "\<lambda>i. aiNodeAssign ! i"
              and F = "\<lambda>i x. dadd x (dmul (adW ! i) (dexp (adF ! i)))"])
  next
    case (Some off)
    then show ?thesis
      unfolding FitBestConstant_fst denominator_def bag_obs_def eta_def
      by (simp add: obs_offset_Den z fold_dadd dadd_zero_left dadd_comm [of "off ! _"]
            fold_cell [OF k, where a = "\<lambda>i. aiNodeAssign ! i"
              and F = "\<lambda>i x. dadd x (dmul (adW ! i) (dexp (dadd (off ! i) (adF ! i))))"])
  qed
qed

lemma FitBestConstant_offset_bounds:
  "vecdMax (fst (FitBestConstant this h adY adMisc (Some off) adW adF adZ aiNodeAssign nTrain
                   vecpTermNodes cTermNodes cMinObsInNode afInBag adFadj cIdxOff))
     = replicate cTermNodes NInf"
  "vecdMin (fst (FitBestConstant this h adY adMisc (Some off) adW adF adZ aiNodeAssign nTrain
                   vecpTermNodes cTermNodes cMinObsInNode afInBag adFadj cIdxOff))
     = replicate cTermNodes PInf"
  by (simp_all add: FitBestConstant_fst obs_offset_Max obs_offset_Min
        FitBestConstant_reset_def HUGE_VAL_def)

lemma FitBestConstant_Max:
  assumes "k < cTermNodes"
  shows "vecdMax (fst (FitBestConstant this h adY adMisc None adW adF adZ aiNodeAssign nTrain
                   vecpTermNodes cTermNodes cMinObsInNode afInBag adFadj cIdxOff)) ! k
         = fold (\<lambda>i x. fmax2 (adF ! i) x) (node_obs aiNodeAssign nTrain k) NInf"
proof -
  have k: "k < length (vecdMax (FitBestConstant_reset cTermNodes this))"
    using assms by (simp add: FitBestConstant_reset_def)
  have z: "vecdMax (FitBestConstant_reset cTermNodes this) ! k = NInf"
    using assms by (simp add: FitBestConstant_reset_def HUGE_VAL_def)
  show ?thesis
    unfolding FitBestConstant_fst node_obs_def
    using fold_cell [OF k, where a = "\<lambda>i. aiNodeAssign ! i" and P = "\<lambda>i. True"
            and F = "\<lambda>i x. fmax2 (adF ! i) x" and xs = "[0..<nTrain]"]
    by (simp add: obs_null_Max z)
qed

lemma FitBestConstant_Min:
  assumes "k < cTermNodes"
  shows "vecdMin (fst (FitBestConstant this h adY adMisc None adW adF adZ aiNodeAssign nTrain
                   vecpTermNodes cTermNodes cMinObsInNode afInBag adFadj cIdxOff)) ! k
         = fold (\<lambda>i x. fmin2 (adF ! i) x) (node_obs aiNodeAssign nTrain k) PInf"
proof -
  have k: "k < length (vecdMin (FitBestConstant_reset cTermNodes this))"
    using assms by (simp add: FitBestConstant_reset_def)
  have z: "vecdMin (FitBestConstant_reset cTermNodes this) ! k = PInf"
    using assms by (simp add: FitBestConstant_reset_def HUGE_VAL_def)
  show ?thesis
    unfolding FitBestConstant_fst node_obs_def
    using fold_cell [OF k, where a = "\<lambda>i. aiNodeAssign ! i" and P = "\<lambda>i. True"
            and F = "\<lambda>i x. fmin2 (adF ! i) x" and xs = "[0..<nTrain]"]
    by (simp add: obs_null_Min z)
qed

text \<open>The running maximum and minimum of finite values.\<close>

lemma fold_fmax2_Fin:
  "\<forall>i \<in> set xs. is_finite (f i) \<Longrightarrow>
   fold (\<lambda>i x. fmax2 (f i) x) xs (Fin m) = Fin (fold max (map (\<lambda>i. the_real (f i)) xs) m)"
proof (induction xs arbitrary: m)
  case Nil
  show ?case by simp
next
  case (Cons i xs)
  then obtain a where a: "f i = Fin a" by (cases "f i") simp_all
  have step: "fmax2 (Fin a) (Fin m) = Fin (max a m)"
    by (simp add: fmax2_def max_def)
  have "fold (\<lambda>i x. fmax2 (f i) x) xs (Fin (max a m))
          = Fin (fold max (map (\<lambda>i. the_real (f i)) xs) (max a m))"
    using Cons.prems by (intro Cons.IH) simp
  then show ?case by (simp add: step a)
qed

lemma fold_fmin2_Fin:
  "\<forall>i \<in> set xs. is_finite (f i) \<Longrightarrow>
   fold (\<lambda>i x. fmin2 (f i) x) xs (Fin m) = Fin (fold min (map (\<lambda>i. the_real (f i)) xs) m)"
proof (induction xs arbitrary: m)
  case Nil
  show ?case by simp
next
  case (Cons i xs)
  then obtain a where a: "f i = Fin a" by (cases "f i") simp_all
  have step: "fmin2 (Fin a) (Fin m) = Fin (min a m)"
    by (simp add: fmin2_def min_def)
  have "fold (\<lambda>i x. fmin2 (f i) x) xs (Fin (min a m))
          = Fin (fold min (map (\<lambda>i. the_real (f i)) xs) (min a m))"
    using Cons.prems by (intro Cons.IH) simp
  then show ?case by (simp add: step a)
qed

lemma fold_fmax2_NInf:
  assumes "\<forall>i \<in> set xs. is_finite (f i)" and "xs \<noteq> []"
  shows "fold (\<lambda>i x. fmax2 (f i) x) xs NInf = Fin (Max (set (map (\<lambda>i. the_real (f i)) xs)))"
proof -
  obtain i ys where xs: "xs = i # ys" using assms(2) by (cases xs) simp_all
  obtain a where a: "f i = Fin a" using assms(1) xs by (cases "f i") simp_all
  have first: "fmax2 (Fin a) NInf = Fin a" by (simp add: fmax2_def)
  have rest: "fold (\<lambda>i x. fmax2 (f i) x) ys (Fin a)
                = Fin (fold max (map (\<lambda>i. the_real (f i)) ys) a)"
    using assms(1) xs by (intro fold_fmax2_Fin) simp
  have "Max (set (a # map (\<lambda>i. the_real (f i)) ys)) = fold max (map (\<lambda>i. the_real (f i)) ys) a"
    by (rule Max.set_eq_fold)
  then show ?thesis
    by (simp only: xs fold_Cons comp_apply a first rest list.map the_real.simps)
qed

lemma fold_fmin2_PInf:
  assumes "\<forall>i \<in> set xs. is_finite (f i)" and "xs \<noteq> []"
  shows "fold (\<lambda>i x. fmin2 (f i) x) xs PInf = Fin (Min (set (map (\<lambda>i. the_real (f i)) xs)))"
proof -
  obtain i ys where xs: "xs = i # ys" using assms(2) by (cases xs) simp_all
  obtain a where a: "f i = Fin a" using assms(1) xs by (cases "f i") simp_all
  have first: "fmin2 (Fin a) PInf = Fin a" by (simp add: fmin2_def)
  have rest: "fold (\<lambda>i x. fmin2 (f i) x) ys (Fin a)
                = Fin (fold min (map (\<lambda>i. the_real (f i)) ys) a)"
    using assms(1) xs by (intro fold_fmin2_Fin) simp
  have "Min (set (a # map (\<lambda>i. the_real (f i)) ys)) = fold min (map (\<lambda>i. the_real (f i)) ys) a"
    by (rule Min.set_eq_fold)
  then show ?thesis
    by (simp only: xs fold_Cons comp_apply a first rest list.map the_real.simps)
qed

subsection \<open>FitBestConstant: the node loop\<close>

lemma set_dPrediction_get: "dPrediction (set_dPrediction h p v p) = v"
  by (simp add: set_dPrediction_def)

lemma set_dPrediction_other: "q \<noteq> p \<Longrightarrow> set_dPrediction h p v q = h q"
  by (simp add: set_dPrediction_def)

lemma set_dPrediction_twice: "set_dPrediction (set_dPrediction h p v) p w = set_dPrediction h p w"
  by (simp add: set_dPrediction_def)

lemma node_step:
  "FitBestConstant_node s vec i h =
     (case vec ! i of
        None \<Rightarrow> h
      | Some p \<Rightarrow>
          set_dPrediction h p
            (fmax2 (fmin2 (raw_prediction (vecdNum s ! i) (vecdDen s ! i))
                          (dsub (Fin 19) (vecdMax s ! i)))
                   (dsub (Fin (- 19)) (vecdMin s ! i))))"
proof (cases "vec ! i")
  case None
  then show ?thesis by (simp add: FitBestConstant_node_def)
next
  case (Some p)
  have h1: "(if vecdNum s ! i = Fin 0
             then set_dPrediction h p (Fin (- 19))
             else if vecdDen s ! i = Fin 0
             then set_dPrediction h p (Fin 0)
             else set_dPrediction h p (dlog (ddiv (vecdNum s ! i) (vecdDen s ! i))))
            = set_dPrediction h p (raw_prediction (vecdNum s ! i) (vecdDen s ! i))"
    by (simp add: raw_prediction_def)
  show ?thesis
    unfolding FitBestConstant_node_def Some option.case h1 Let_def
      set_dPrediction_get set_dPrediction_twice
    by (rule refl)
qed

lemma node_loop_other:
  "\<forall>i \<in> set xs. vec ! i \<noteq> Some p \<Longrightarrow> fold (FitBestConstant_node s vec) xs h p = h p"
proof (induction xs arbitrary: h)
  case Nil
  show ?case by simp
next
  case (Cons x xs)
  have "FitBestConstant_node s vec x h p = h p"
    using Cons.prems by (cases "vec ! x") (simp_all add: node_step set_dPrediction_other)
  then show ?case using Cons by simp
qed

lemma node_loop:
  assumes "k \<in> set xs" and "vec ! k = Some p"
    and "\<forall>i \<in> set xs. vec ! i = Some p \<longrightarrow> i = k"
  shows "dPrediction (fold (FitBestConstant_node s vec) xs h p)
         = fmax2 (fmin2 (raw_prediction (vecdNum s ! k) (vecdDen s ! k))
                        (dsub (Fin 19) (vecdMax s ! k)))
                 (dsub (Fin (- 19)) (vecdMin s ! k))"
  using assms
proof (induction xs arbitrary: h)
  case Nil
  then show ?case by simp
next
  case (Cons x xs)
  show ?case
  proof (cases "k \<in> set xs")
    case True
    have "\<forall>i \<in> set xs. vec ! i = Some p \<longrightarrow> i = k"
      using Cons.prems(3) by simp
    from Cons.IH [OF True Cons.prems(2) this, of "FitBestConstant_node s vec x h"]
    show ?thesis by simp
  next
    case False
    then have x: "x = k" using Cons.prems(1) by simp
    have other: "\<forall>i \<in> set xs. vec ! i \<noteq> Some p"
    proof
      fix i
      assume i: "i \<in> set xs"
      show "vec ! i \<noteq> Some p"
      proof
        assume "vec ! i = Some p"
        then have "i = k" using Cons.prems(3) i by simp
        with False i show False by simp
      qed
    qed
    have "fold (FitBestConstant_node s vec) (x # xs) h p = FitBestConstant_node s vec k h p"
      using node_loop_other [OF other, of s "FitBestConstant_node s vec k h"] by (simp add: x)
    also have "FitBestConstant_node s vec k h
                 = set_dPrediction h p
                     (fmax2 (fmin2 (raw_prediction (vecdNum s ! k) (vecdDen s ! k))
                               (dsub (Fin 19) (vecdMax s ! k)))
                        (dsub (Fin (- 19)) (vecdMin s ! k)))"
      by (simp only: node_step Cons.prems(2) option.case)
    finally show ?thesis
      by (simp only: set_dPrediction_get)
  qed
qed

lemma FitBestConstant_prediction:
  assumes "distinct_nodes vecpTermNodes cTermNodes" and "k < cTermNodes"
    and "vecpTermNodes ! k = Some p"
  shows "dPrediction (snd (FitBestConstant this h adY adMisc adOffset adW adF adZ aiNodeAssign
                             nTrain vecpTermNodes cTermNodes cMinObsInNode afInBag adFadj cIdxOff) p)
         = fmax2 (fmin2 (raw_prediction (numerator adY adW aiNodeAssign afInBag nTrain k)
                           (denominator adOffset adW adF aiNodeAssign afInBag nTrain k))
                    (dsub (Fin 19)
                       (vecdMax (fst (FitBestConstant this h adY adMisc adOffset adW adF adZ
                          aiNodeAssign nTrain vecpTermNodes cTermNodes cMinObsInNode afInBag
                          adFadj cIdxOff)) ! k)))
             (dsub (Fin (- 19))
                (vecdMin (fst (FitBestConstant this h adY adMisc adOffset adW adF adZ
                   aiNodeAssign nTrain vecpTermNodes cTermNodes cMinObsInNode afInBag
                   adFadj cIdxOff)) ! k))"
proof -
  have a: "k \<in> set [0..<cTermNodes]" using assms(2) by simp
  have b: "\<forall>i \<in> set [0..<cTermNodes]. vecpTermNodes ! i = Some p \<longrightarrow> i = k"
    using assms by (auto simp: distinct_nodes_def)
  show ?thesis
    unfolding FitBestConstant_snd
    by (simp only: node_loop [OF a assms(3) b] FitBestConstant_Num [OF assms(2)]
          FitBestConstant_Den [OF assms(2)])
qed

subsection \<open>The clamp\<close>

lemma clamp_noop: "fmax2 (fmin2 x (dsub (Fin 19) NInf)) (dsub (Fin (- 19)) PInf) = x"
  by (cases x) (simp_all add: fmax2_def fmin2_def dsub_def)





lemma fmin2_inside: "dle v hi \<Longrightarrow> fmin2 v hi = v"
  by (cases v; cases hi) (simp_all add: fmin2_def)

lemma fmax2_inside: "dle lo v \<Longrightarrow> fmax2 v lo = v"
  by (cases v; cases lo) (simp_all add: fmax2_def)

lemma clamp_inside:
  "dle lo v \<Longrightarrow> dle v hi \<Longrightarrow> fmax2 (fmin2 v hi) lo = v"
  by (simp add: fmin2_inside fmax2_inside)



lemma clamp_Fin:
  assumes "\<not> is_nan (fmax2 (fmin2 r (Fin hi)) (Fin lo))"
  shows "\<exists>v. fmax2 (fmin2 r (Fin hi)) (Fin lo) = Fin v \<and> lo \<le> v \<and> (lo \<le> hi \<longrightarrow> v \<le> hi)"
proof (cases r)
  case (Fin x)
  then show ?thesis by (simp add: fmax2_def fmin2_def)
next
  case PInf
  then show ?thesis by (simp add: fmax2_def fmin2_def)
next
  case NInf
  then show ?thesis by (simp add: fmax2_def fmin2_def)
next
  case NaN
  then show ?thesis using assms by (simp add: fmax2_def fmin2_def)
qed

subsection \<open>FitBestConstant: the claims\<close>

text \<open>
  The theorems below are about a run within bounds: every node assignment is below
  \<open>cTermNodes\<close>, and the terminal nodes are separate objects.

  Claim C8. With the offset present, \<open>FitBestConstant\<close> does not track the maximum and the
  minimum of \<open>f\<close>: the two vectors keep their initial \<open>-\<infinity>\<close> and \<open>+\<infinity>\<close>, and the prediction
  of every non-null terminal node is the value before the clamp, that is \<open>-19\<close> for a zero
  numerator, else \<open>0\<close> for a zero denominator, else \<open>log (numerator / denominator)\<close>.
\<close>

theorem FitBestConstant_offset_no_clamp:
  assumes run: "FitBestConstant this h adY adMisc (Some off) adW adF adZ aiNodeAssign nTrain
                  vecpTermNodes cTermNodes cMinObsInNode afInBag adFadj cIdxOff = (this', h')"
    and dist: "distinct_nodes vecpTermNodes cTermNodes"
    and range: "\<forall>i < nTrain. aiNodeAssign ! i < cTermNodes"
    and k: "k < cTermNodes"
    and p: "vecpTermNodes ! k = Some p"
  shows "vecdMax this' = replicate cTermNodes NInf
         \<and> vecdMin this' = replicate cTermNodes PInf
         \<and> dPrediction (h' p)
             = raw_prediction (numerator adY adW aiNodeAssign afInBag nTrain k)
                 (denominator (Some off) adW adF aiNodeAssign afInBag nTrain k)"
proof -
  have mx: "vecdMax this' = replicate cTermNodes NInf"
    using FitBestConstant_offset_bounds(1)
      [of this h adY adMisc off adW adF adZ aiNodeAssign nTrain vecpTermNodes cTermNodes
          cMinObsInNode afInBag adFadj cIdxOff]
    by (simp add: run)
  have mn: "vecdMin this' = replicate cTermNodes PInf"
    using FitBestConstant_offset_bounds(2)
      [of this h adY adMisc off adW adF adZ aiNodeAssign nTrain vecpTermNodes cTermNodes
          cMinObsInNode afInBag adFadj cIdxOff]
    by (simp add: run)
  have "dPrediction (h' p)
          = raw_prediction (numerator adY adW aiNodeAssign afInBag nTrain k)
              (denominator (Some off) adW adF aiNodeAssign afInBag nTrain k)"
    using FitBestConstant_prediction [OF dist k p, of this h adY adMisc "Some off" adW adF adZ
        aiNodeAssign nTrain cMinObsInNode afInBag adFadj cIdxOff]
    by (simp add: run mx mn k clamp_noop)
  with mx mn show ?thesis by simp
qed

theorem FitBestConstant_offset_no_clamp_witness:
  "dPrediction
     (snd (FitBestConstant CPoisson_new blank_store [Fin 0] [] (Some [Fin 0]) [Fin 1] [Fin (- 5)]
             [] [0] 1 [Some 0] 1 0 [1] [] 0) 0) = Fin (- 19)
   \<and> vecdMax (fst (FitBestConstant CPoisson_new blank_store [Fin 0] [] (Some [Fin 0]) [Fin 1]
                      [Fin (- 5)] [] [0] 1 [Some 0] 1 0 [1] [] 0)) = [NInf]"
proof -
  let ?R = "FitBestConstant CPoisson_new blank_store [Fin 0] [] (Some [Fin 0]) [Fin 1]
              [Fin (- 5)] [] [0] 1 [Some 0] 1 0 [1] [] 0"
  have run: "?R = (fst ?R, snd ?R)" by simp
  have dist: "distinct_nodes [Some 0] 1" by (simp add: distinct_nodes_def)
  have range: "\<forall>i < (1::nat). [0::nat] ! i < 1" by simp
  have k: "(0::nat) < 1" by simp
  have p: "[Some (0::nat)] ! 0 = Some 0" by simp
  show ?thesis
    using FitBestConstant_offset_no_clamp [OF run dist range k p]
    by (simp add: raw_prediction_def numerator_def bag_obs_def)
qed



lemma eval_degenerate:
  "dPrediction (snd (FitBestConstant CPoisson_new blank_store [Fin 0] [] None [Fin 1]
       [Fin (- 5)] [] [0] 1 [Some 0] 1 0 [1] [] 0) 0) = Fin (- 14)"
  by (simp add: FitBestConstant_def FitBestConstant_reset_def FitBestConstant_obs_null_def
        FitBestConstant_node_def set_dPrediction_def CPoisson_new_def blank_store_def
        HUGE_VAL_def fmax2_def fmin2_def dsub_def Let_def)

text \<open>
  Claim C1, as the specification states it, fails: the value \<open>-19\<close> set for a zero
  numerator still goes through the clamp. With the offset absent and one observation
  \<open>y = 0\<close>, \<open>f = -5\<close> in the node, the lower bound is \<open>-19 - (-5) = -14\<close> and the prediction
  is \<open>-14\<close>.
\<close>

theorem FitBestConstant_degenerate_counterexample:
  "numerator [Fin 0] [Fin 1] [0] [1] 1 0 = Fin 0
   \<and> dPrediction (snd (FitBestConstant CPoisson_new blank_store [Fin 0] [] None [Fin 1]
          [Fin (- 5)] [] [0] 1 [Some 0] 1 0 [1] [] 0) 0) = Fin (- 14)
   \<and> dPrediction (snd (FitBestConstant CPoisson_new blank_store [Fin 0] [] None [Fin 1]
          [Fin (- 5)] [] [0] 1 [Some 0] 1 0 [1] [] 0) 0) \<noteq> Fin (- 19)"
proof -
  have "numerator [Fin 0] [Fin 1] [0] [1] 1 0 = Fin 0"
    by (simp add: numerator_def bag_obs_def)
  then show ?thesis unfolding eval_degenerate by simp
qed

text \<open>
  Claim C1, amended. For a non-null terminal node with a zero numerator the prediction is
  \<open>-19\<close> put through the clamp, \<open>fmax2 (fmin2 (-19) (19 - max)) (-19 - min)\<close>; it is \<open>-19\<close>
  itself when \<open>-19\<close> lies within the two bounds, and always when the offset is present. For
  a node with a non-zero numerator and a zero denominator the same holds of \<open>0\<close>.
\<close>

theorem FitBestConstant_degenerate:
  assumes run: "FitBestConstant this h adY adMisc adOffset adW adF adZ aiNodeAssign nTrain
                  vecpTermNodes cTermNodes cMinObsInNode afInBag adFadj cIdxOff = (this', h')"
    and dist: "distinct_nodes vecpTermNodes cTermNodes"
    and range: "\<forall>i < nTrain. aiNodeAssign ! i < cTermNodes"
    and k: "k < cTermNodes"
    and p: "vecpTermNodes ! k = Some p"
  shows "(numerator adY adW aiNodeAssign afInBag nTrain k = Fin 0 \<longrightarrow>
            dPrediction (h' p)
              = fmax2 (fmin2 (Fin (- 19)) (dsub (Fin 19) (vecdMax this' ! k)))
                  (dsub (Fin (- 19)) (vecdMin this' ! k))
            \<and> (dle (dsub (Fin (- 19)) (vecdMin this' ! k)) (Fin (- 19))
                 \<and> dle (Fin (- 19)) (dsub (Fin 19) (vecdMax this' ! k))
               \<longrightarrow> dPrediction (h' p) = Fin (- 19))
            \<and> (adOffset \<noteq> None \<longrightarrow> dPrediction (h' p) = Fin (- 19)))
         \<and> (numerator adY adW aiNodeAssign afInBag nTrain k \<noteq> Fin 0
              \<and> denominator adOffset adW adF aiNodeAssign afInBag nTrain k = Fin 0 \<longrightarrow>
            dPrediction (h' p)
              = fmax2 (fmin2 (Fin 0) (dsub (Fin 19) (vecdMax this' ! k)))
                  (dsub (Fin (- 19)) (vecdMin this' ! k))
            \<and> (dle (dsub (Fin (- 19)) (vecdMin this' ! k)) (Fin 0)
                 \<and> dle (Fin 0) (dsub (Fin 19) (vecdMax this' ! k))
               \<longrightarrow> dPrediction (h' p) = Fin 0)
            \<and> (adOffset \<noteq> None \<longrightarrow> dPrediction (h' p) = Fin 0))"
proof -
  let ?num = "numerator adY adW aiNodeAssign afInBag nTrain k"
  let ?den = "denominator adOffset adW adF aiNodeAssign afInBag nTrain k"
  let ?hi = "dsub (Fin 19) (vecdMax this' ! k)"
  let ?lo = "dsub (Fin (- 19)) (vecdMin this' ! k)"
  have eq: "dPrediction (h' p) = fmax2 (fmin2 (raw_prediction ?num ?den) ?hi) ?lo"
    using FitBestConstant_prediction [OF dist k p, of this h adY adMisc adOffset adW adF adZ
        aiNodeAssign nTrain cMinObsInNode afInBag adFadj cIdxOff]
    by (simp add: run)
  have noop: "fmax2 (fmin2 v ?hi) ?lo = v" if "adOffset \<noteq> None" for v
  proof -
    from that obtain off where off: "adOffset = Some off" by (cases adOffset) simp_all
    have "vecdMax this' = replicate cTermNodes NInf"
      using FitBestConstant_offset_bounds(1)
        [of this h adY adMisc off adW adF adZ aiNodeAssign nTrain vecpTermNodes cTermNodes
            cMinObsInNode afInBag adFadj cIdxOff]
      by (simp add: run [unfolded off])
    moreover have "vecdMin this' = replicate cTermNodes PInf"
      using FitBestConstant_offset_bounds(2)
        [of this h adY adMisc off adW adF adZ aiNodeAssign nTrain vecpTermNodes cTermNodes
            cMinObsInNode afInBag adFadj cIdxOff]
      by (simp add: run [unfolded off])
    ultimately show ?thesis using k by (simp add: clamp_noop)
  qed
  have zero: "raw_prediction ?num ?den = Fin (- 19)" if "?num = Fin 0"
    using that by (simp add: raw_prediction_def)
  have dzero: "raw_prediction ?num ?den = Fin 0" if "?num \<noteq> Fin 0" "?den = Fin 0"
    using that by (simp add: raw_prediction_def)
  have a: "dPrediction (h' p) = fmax2 (fmin2 (Fin (- 19)) ?hi) ?lo" if "?num = Fin 0"
    using eq zero [OF that] by simp
  have b: "dPrediction (h' p) = fmax2 (fmin2 (Fin 0) ?hi) ?lo"
    if "?num \<noteq> Fin 0" "?den = Fin 0"
    using eq dzero [OF that] by simp
  have a1: "dPrediction (h' p) = Fin (- 19)"
    if "?num = Fin 0" "dle ?lo (Fin (- 19))" "dle (Fin (- 19)) ?hi"
    using a [OF that(1)] clamp_inside [OF that(2) that(3)] by simp
  have a2: "dPrediction (h' p) = Fin (- 19)" if "?num = Fin 0" "adOffset \<noteq> None"
    using a [OF that(1)] noop [OF that(2), of "Fin (- 19)"] by simp
  have b1: "dPrediction (h' p) = Fin 0"
    if "?num \<noteq> Fin 0" "?den = Fin 0" "dle ?lo (Fin 0)" "dle (Fin 0) ?hi"
    using b [OF that(1) that(2)] clamp_inside [OF that(3) that(4)] by simp
  have b2: "dPrediction (h' p) = Fin 0"
    if "?num \<noteq> Fin 0" "?den = Fin 0" "adOffset \<noteq> None"
    using b [OF that(1) that(2)] noop [OF that(3), of "Fin 0"] by simp
  show ?thesis
    using a a1 a2 b b1 b2 by blast
qed

theorem FitBestConstant_degenerate_witness:
  "dPrediction (snd (FitBestConstant CPoisson_new blank_store [Fin 0] [] None [Fin 1]
       [Fin 5] [] [0] 1 [Some 0] 1 0 [1] [] 0) 0) = Fin (- 19)
   \<and> dPrediction (snd (FitBestConstant CPoisson_new blank_store [Fin 1] [] (Some [Fin 0]) [Fin 1]
       [NInf] [] [0] 1 [Some 0] 1 0 [1] [] 0) 0) = Fin 0"
proof -
  let ?A = "FitBestConstant CPoisson_new blank_store [Fin 0] [] None [Fin 1]
              [Fin 5] [] [0] 1 [Some 0] 1 0 [1] [] 0"
  let ?B = "FitBestConstant CPoisson_new blank_store [Fin 1] [] (Some [Fin 0]) [Fin 1]
              [NInf] [] [0] 1 [Some 0] 1 0 [1] [] 0"
  have runA: "?A = (fst ?A, snd ?A)" by simp
  have runB: "?B = (fst ?B, snd ?B)" by simp
  have dist: "distinct_nodes [Some 0] 1" by (simp add: distinct_nodes_def)
  have range: "\<forall>i < (1::nat). [0::nat] ! i < 1" by simp
  have k: "(0::nat) < 1" by simp
  have p: "[Some (0::nat)] ! 0 = Some 0" by simp
  have numA: "numerator [Fin 0] [Fin 1] [0] [1] 1 0 = Fin 0"
    by (simp add: numerator_def bag_obs_def)
  have mx: "vecdMax (fst ?A) ! 0 = Fin 5"
    by (simp add: FitBestConstant_Max node_obs_def fmax2_def)
  have mn: "vecdMin (fst ?A) ! 0 = Fin 5"
    by (simp add: FitBestConstant_Min node_obs_def fmin2_def)
  have numB: "numerator [Fin 1] [Fin 1] [0] [1] 1 0 \<noteq> Fin 0"
    by (simp add: numerator_def bag_obs_def)
  have denB: "denominator (Some [Fin 0]) [Fin 1] [NInf] [0] [1] 1 0 = Fin 0"
    by (simp add: denominator_def bag_obs_def eta_def)
  have lo: "dle (dsub (Fin (- 19)) (vecdMin (fst ?A) ! 0)) (Fin (- 19))"
    unfolding mn by (simp add: dsub_def)
  have hi: "dle (Fin (- 19)) (dsub (Fin 19) (vecdMax (fst ?A) ! 0))"
    unfolding mx by (simp add: dsub_def)
  have some: "Some [Fin 0] \<noteq> None" by simp
  have a: "dPrediction (snd ?A 0) = Fin (- 19)"
    using FitBestConstant_degenerate [OF runA dist range k p] numA lo hi by blast
  have b: "dPrediction (snd ?B 0) = Fin 0"
    using FitBestConstant_degenerate [OF runB dist range k p] numB denB some by blast
  from a b show ?thesis by simp
qed

lemma eval_spread:
  "dPrediction (snd (FitBestConstant CPoisson_new blank_store [Fin 0, Fin 0] [] None
       [Fin 1, Fin 1] [Fin 0, Fin 40] [] [0, 0] 2 [Some 0] 1 0 [1, 1] [] 0) 0) = Fin (- 19)"
  by (simp add: FitBestConstant_def FitBestConstant_reset_def FitBestConstant_obs_null_def
        FitBestConstant_node_def set_dPrediction_def CPoisson_new_def blank_store_def
        HUGE_VAL_def fmax2_def fmin2_def dsub_def Let_def upt_rec)

lemma node_obs_two: "node_obs [0, 0] 2 0 = [0, 1]"
  by (simp add: node_obs_def upt_rec)

text \<open>
  Claim C2, as the specification states it, fails: one prediction cannot keep both bounds
  when the values of \<open>f\<close> in the node are more than 38 apart. With \<open>f = 0\<close> and \<open>f = 40\<close> in
  the node and \<open>y = 0\<close> the prediction is \<open>-19\<close>, and \<open>40 + (-19) = 21\<close> exceeds 19.
\<close>

theorem FitBestConstant_clamp_bounds_counterexample:
  "node_obs [0, 0] 2 0 = [0, 1]
   \<and> nodeMax [Fin 0, Fin 40] [0, 0] 2 0 = 40
   \<and> dPrediction (snd (FitBestConstant CPoisson_new blank_store [Fin 0, Fin 0] [] None
          [Fin 1, Fin 1] [Fin 0, Fin 40] [] [0, 0] 2 [Some 0] 1 0 [1, 1] [] 0) 0) = Fin (- 19)
   \<and> \<not> dle (dadd (Fin (nodeMax [Fin 0, Fin 40] [0, 0] 2 0))
               (dPrediction (snd (FitBestConstant CPoisson_new blank_store [Fin 0, Fin 0] []
                  None [Fin 1, Fin 1] [Fin 0, Fin 40] [] [0, 0] 2 [Some 0] 1 0 [1, 1] [] 0) 0)))
            (Fin 19)"
proof -
  have m: "nodeMax [Fin 0, Fin 40] [0, 0] 2 0 = 40"
    unfolding nodeMax_def node_obs_two by simp
  show ?thesis unfolding eval_spread m node_obs_two by simp
qed

text \<open>
  Claim C2, amended. With the offset absent, for a non-null terminal node that has at least
  one observation, all of them with finite \<open>f\<close>, and whose prediction is a number:
  \<open>nodeMin + prediction\<close> is at least \<open>-19\<close>, and \<open>nodeMax + prediction\<close> is at most \<open>19\<close>
  provided \<open>nodeMax - nodeMin\<close> is at most 38.
\<close>

theorem FitBestConstant_clamp_bounds:
  assumes run: "FitBestConstant this h adY adMisc None adW adF adZ aiNodeAssign nTrain
                  vecpTermNodes cTermNodes cMinObsInNode afInBag adFadj cIdxOff = (this', h')"
    and dist: "distinct_nodes vecpTermNodes cTermNodes"
    and range: "\<forall>i < nTrain. aiNodeAssign ! i < cTermNodes"
    and k: "k < cTermNodes"
    and p: "vecpTermNodes ! k = Some p"
    and obs: "node_obs aiNodeAssign nTrain k \<noteq> []"
    and fin: "\<forall>i < nTrain. aiNodeAssign ! i = k \<longrightarrow> is_finite (adF ! i)"
    and num: "\<not> is_nan (dPrediction (h' p))"
  shows "dle (Fin (- 19)) (dadd (Fin (nodeMin adF aiNodeAssign nTrain k)) (dPrediction (h' p)))
         \<and> (nodeMax adF aiNodeAssign nTrain k - nodeMin adF aiNodeAssign nTrain k \<le> 38
              \<longrightarrow> dle (dadd (Fin (nodeMax adF aiNodeAssign nTrain k)) (dPrediction (h' p)))
                    (Fin 19))"
proof -
  let ?raw = "raw_prediction (numerator adY adW aiNodeAssign afInBag nTrain k)
                (denominator None adW adF aiNodeAssign afInBag nTrain k)"
  let ?M = "nodeMax adF aiNodeAssign nTrain k"
  let ?m = "nodeMin adF aiNodeAssign nTrain k"
  have fin': "\<forall>i \<in> set (node_obs aiNodeAssign nTrain k). is_finite (adF ! i)"
    using fin by (simp add: node_obs_def)
  have mx: "vecdMax this' ! k = Fin ?M"
    using FitBestConstant_Max [OF k, of this h adY adMisc adW adF adZ aiNodeAssign nTrain
        vecpTermNodes cMinObsInNode afInBag adFadj cIdxOff]
      fold_fmax2_NInf [OF fin' obs]
    by (simp add: run nodeMax_def)
  have mn: "vecdMin this' ! k = Fin ?m"
    using FitBestConstant_Min [OF k, of this h adY adMisc adW adF adZ aiNodeAssign nTrain
        vecpTermNodes cMinObsInNode afInBag adFadj cIdxOff]
      fold_fmin2_PInf [OF fin' obs]
    by (simp add: run nodeMin_def)
  have eq: "dPrediction (h' p) = fmax2 (fmin2 ?raw (Fin (19 - ?M))) (Fin (- 19 - ?m))"
    using FitBestConstant_prediction [OF dist k p, of this h adY adMisc None adW adF adZ
        aiNodeAssign nTrain cMinObsInNode afInBag adFadj cIdxOff]
    by (simp add: run mx mn dsub_def)
  have "\<not> is_nan (fmax2 (fmin2 ?raw (Fin (19 - ?M))) (Fin (- 19 - ?m)))"
    using num unfolding eq .
  from clamp_Fin [OF this] obtain v
    where v: "fmax2 (fmin2 ?raw (Fin (19 - ?M))) (Fin (- 19 - ?m)) = Fin v"
      and lo: "- 19 - ?m \<le> v"
      and hi: "- 19 - ?m \<le> 19 - ?M \<longrightarrow> v \<le> 19 - ?M"
    by blast
  have pv: "dPrediction (h' p) = Fin v" using eq v by simp
  have low: "dle (Fin (- 19)) (dadd (Fin ?m) (dPrediction (h' p)))"
    using lo by (simp add: pv)
  have up: "dle (dadd (Fin ?M) (dPrediction (h' p))) (Fin 19)" if "?M - ?m \<le> 38"
    using hi that by (simp add: pv)
  show ?thesis using low up by blast
qed

theorem FitBestConstant_clamp_bounds_witness:
  "dle (Fin (- 19))
     (dadd (Fin (nodeMin [Fin 0, Fin 10] [0, 0] 2 0))
        (dPrediction (snd (FitBestConstant CPoisson_new blank_store [Fin 0, Fin 0] [] None
           [Fin 1, Fin 1] [Fin 0, Fin 10] [] [0, 0] 2 [Some 0] 1 0 [1, 1] [] 0) 0)))
   \<and> dle (dadd (Fin (nodeMax [Fin 0, Fin 10] [0, 0] 2 0))
            (dPrediction (snd (FitBestConstant CPoisson_new blank_store [Fin 0, Fin 0] [] None
               [Fin 1, Fin 1] [Fin 0, Fin 10] [] [0, 0] 2 [Some 0] 1 0 [1, 1] [] 0) 0)))
         (Fin 19)"
proof -
  let ?R = "FitBestConstant CPoisson_new blank_store [Fin 0, Fin 0] [] None
              [Fin 1, Fin 1] [Fin 0, Fin 10] [] [0, 0] 2 [Some 0] 1 0 [1, 1] [] 0"
  have run: "?R = (fst ?R, snd ?R)" by simp
  have dist: "distinct_nodes [Some 0] 1" by (simp add: distinct_nodes_def)
  have range: "\<forall>i < (2::nat). [0::nat, 0] ! i < 1" by (simp add: all_less_2)
  have k: "(0::nat) < 1" by simp
  have p: "[Some (0::nat)] ! 0 = Some 0" by simp
  have obs: "node_obs [0, 0] 2 0 \<noteq> []" unfolding node_obs_two by simp
  have fin: "\<forall>i < (2::nat). [0::nat, 0] ! i = 0 \<longrightarrow> is_finite ([Fin 0, Fin 10] ! i)"
    by (simp add: all_less_2)
  have ev: "dPrediction (snd ?R 0) = Fin (- 19)"
    by (simp add: FitBestConstant_def FitBestConstant_reset_def FitBestConstant_obs_null_def
          FitBestConstant_node_def set_dPrediction_def CPoisson_new_def blank_store_def
          HUGE_VAL_def fmax2_def fmin2_def dsub_def Let_def upt_rec)
  have num: "\<not> is_nan (dPrediction (snd ?R 0))" unfolding ev by simp
  have spread: "nodeMax [Fin 0, Fin 10] [0, 0] 2 0 - nodeMin [Fin 0, Fin 10] [0, 0] 2 0 \<le> 38"
    unfolding nodeMax_def nodeMin_def node_obs_two by simp
  show ?thesis
    using FitBestConstant_clamp_bounds [OF run dist range k p obs fin num] spread by blast
qed

end
